theory Spec2Isabelle
  imports Complex_Main "HOL-Library.Sublist"
begin

section \<open>Python strings\<close>

text \<open>
  A Python \<open>str\<close> is a sequence of Unicode code points, so a string is a list of
  code points here (not of bytes). \<open>lit\<close> turns an ASCII literal into such a list.
\<close>

type_synonym pystr = "nat list"

definition lit :: "string \<Rightarrow> pystr" where
  "lit s = map of_char s"

text \<open>
  \<open>str.isspace\<close> of CPython: the code points that \<open>str.strip()\<close> removes when it
  is called without an argument.
\<close>

definition isspace :: "nat \<Rightarrow> bool" where
  "isspace c = ((9 \<le> c \<and> c \<le> 13) \<or> (28 \<le> c \<and> c \<le> 32) \<or> c = 133 \<or> c = 160 \<or>
     c = 5760 \<or> (8192 \<le> c \<and> c \<le> 8202) \<or> c = 8232 \<or> c = 8233 \<or> c = 8239 \<or>
     c = 8287 \<or> c = 12288)"

definition strip :: "pystr \<Rightarrow> pystr" where
  "strip s = rev (dropWhile isspace (rev (dropWhile isspace s)))"

text \<open>
  Case mappings of single code points. They are CPython's on the ASCII range and on
  U+017F (LATIN SMALL LETTER LONG S, which is lowercase already and whose titlecase
  is \<open>S\<close>); by \<open>re_match_chars\<close> below no other cased code point occurs in a string
  the classifier capitalizes.
\<close>

definition py_lower :: "nat \<Rightarrow> nat" where
  "py_lower c = (if 65 \<le> c \<and> c \<le> 90 then c + 32 else c)"

definition py_title :: "nat \<Rightarrow> nat" where
  "py_title c = (if 97 \<le> c \<and> c \<le> 122 then c - 32 else if c = 383 then 83 else c)"

text \<open>\<open>str.capitalize()\<close>: first character titlecased, the rest lowercased.\<close>

fun capitalize :: "pystr \<Rightarrow> pystr" where
  "capitalize [] = []"
| "capitalize (c # cs) = py_title c # map py_lower cs"

text \<open>Decimal rendering of an integer inside an f-string.\<close>

fun str_nat :: "nat \<Rightarrow> pystr" where
  "str_nat n = (if n < 10 then [48 + n] else str_nat (n div 10) @ [48 + n mod 10])"

declare str_nat.simps [simp del]

definition str_int :: "int \<Rightarrow> pystr" where
  "str_int i = (if i < 0 then 45 # str_nat (nat (- i)) else str_nat (nat i))"

section \<open>The regular expression of the classifier\<close>

text \<open>
  \<open>re.match(r"^(Resolved|Unresolved)$", classification, re.IGNORECASE)\<close> on a
  \<open>str\<close> pattern, without \<open>re.ASCII\<close>. A pattern letter is compiled to its
  lowercase together with the extra code points of the engine's table of case
  equivalences; the subject character is lowercased and looked up in that set. Of
  the letters of this pattern only \<open>s\<close> has an entry in the table: U+017F.
\<close>

definition ignorecase_fixes :: "nat \<Rightarrow> nat list" where
  "ignorecase_fixes lo = (if lo = 115 then [383] else [])"

definition literal_ignore :: "nat \<Rightarrow> nat \<Rightarrow> bool" where
  "literal_ignore p c = (py_lower c \<in> set (py_lower p # ignorecase_fixes (py_lower p)))"

text \<open>Matching a literal word at the start of the subject; the result is the rest.\<close>

fun match_word :: "pystr \<Rightarrow> pystr \<Rightarrow> pystr option" where
  "match_word [] s = Some s"
| "match_word (p # ps) [] = None"
| "match_word (p # ps) (c # cs) = (if literal_ignore p c then match_word ps cs else None)"

text \<open>
  \<open>$\<close> without \<open>re.MULTILINE\<close>: the end of the string, or just before a newline
  that is the last character.
\<close>

definition at_end :: "pystr \<Rightarrow> bool" where
  "at_end r = (r = [] \<or> r = [10])"

definition alternative :: "pystr \<Rightarrow> pystr \<Rightarrow> bool" where
  "alternative w s = (case match_word w s of None \<Rightarrow> False | Some r \<Rightarrow> at_end r)"

definition re_match :: "pystr \<Rightarrow> bool" where
  "re_match s = (alternative (lit ''Resolved'') s \<or> alternative (lit ''Unresolved'') s)"

section \<open>The comment classifier\<close>

text \<open>
  What one pass through the \<open>try\<close> body yields: the text of the completion, or the
  exception class that leaves it. \<open>APIError\<close> stands for \<open>APIConnectionError\<close> and
  every \<open>APIError\<close> that is not a \<open>RateLimitError\<close>; \<open>OtherException\<close> for anything
  else caught by \<open>except Exception\<close>. The two last carry \<open>str(e)\<close>.
\<close>

datatype outcome =
    Content pystr
  | RateLimitError
  | APIError pystr
  | OtherException pystr

datatype level = INFO | WARNING | ERROR

text \<open>A value in a table: a string, a number, or missing (\<open>None\<close>/\<open>NaN\<close>).\<close>

datatype cell = Str pystr | Num int | NA

text \<open>The exceptions that leave a function of the pipeline, with their message
  (for a \<open>KeyError\<close>, the key).\<close>

datatype error =
    KeyError pystr
  | ValueError pystr
  | OverflowError pystr
  | OSError pystr
  | RuntimeError pystr

text \<open>\<open>str(e)\<close>: the message; for a \<open>KeyError\<close> the key between quotes (the keys
  of this pipeline are column names without quotes).\<close>

fun str_error :: "error \<Rightarrow> pystr" where
  "str_error (KeyError k) = [39] @ k @ [39]"
| "str_error (ValueError m) = m"
| "str_error (OverflowError m) = m"
| "str_error (OSError m) = m"
| "str_error (RuntimeError m) = m"

text \<open>The observable effects of the pipeline, in the order they happen.\<close>

datatype event =
    Create pystr
  | Sleep int
  | Log level pystr
  | WriteFile pystr pystr
  | Upload pystr pystr
  | Progress rat pystr
  | Encode "cell list"
  | FitPredict int nat
  | Purge pystr

definition prompt :: "pystr \<Rightarrow> pystr \<Rightarrow> pystr" where
  "prompt order_id comment =
     lit ''\<newline>        Classify the resolution status for Order ID '' @ order_id @
     lit '' from this comment: '' @ [34] @ comment @ [34] @
     lit ''.\<newline>        Options: [Resolved, Unresolved].\<newline>        Respond ONLY with one word: Resolved or Unresolved.\<newline>        ''"

definition emit :: "event list \<Rightarrow> 'a \<times> event list \<Rightarrow> 'a \<times> event list" where
  "emit es r = (fst r, es @ snd r)"

text \<open>
  \<open>time.sleep(secs)\<close>: what it raises, if anything. A negative length is a
  \<open>ValueError\<close>; what else is refused (a length beyond the range of the platform's
  clock) is the platform's matter, \<open>clock\<close>.
\<close>

definition time_sleep :: "(int \<Rightarrow> error option) \<Rightarrow> int \<Rightarrow> error option" where
  "time_sleep clock secs =
     (if secs < 0 then Some (ValueError (lit ''sleep length must be non-negative''))
      else clock secs)"

text \<open>
  The loop \<open>for attempt in range(max_retries)\<close> of \<open>classify_comment\<close>, from a
  given attempt on. \<open>svc k\<close> is what the \<open>k\<close>-th call of this invocation yields.
  The result is what is returned (\<open>Inr\<close>) or the exception that leaves the function
  (\<open>Inl\<close>): one raised by \<open>time.sleep\<close> inside an \<open>except\<close> block is not caught.
\<close>

function attempts ::
  "(int \<Rightarrow> error option) \<Rightarrow> (nat \<Rightarrow> outcome) \<Rightarrow> pystr \<Rightarrow> pystr \<Rightarrow> int \<Rightarrow> int \<Rightarrow> nat \<Rightarrow>
     (error + pystr option) \<times> event list"
where
  "attempts clock svc order_id comment max_retries retry_delay attempt =
     (if int attempt < max_retries then
        (case svc attempt of
           Content raw \<Rightarrow>
             (let classification = strip raw in
              if re_match classification
              then (Inr (Some (capitalize classification)), [Create (prompt order_id comment)])
              else emit [Create (prompt order_id comment),
                         Log WARNING (lit ''Invalid LLM response: '' @ classification @
                                      lit ''. Retrying...'')]
                     (attempts clock svc order_id comment max_retries retry_delay (attempt + 1)))
         | RateLimitError \<Rightarrow>
             (case time_sleep clock retry_delay of
                Some raised \<Rightarrow>
                  (Inl raised,
                   [Create (prompt order_id comment),
                    Log WARNING (lit ''Rate limit exceeded. Waiting '' @ str_int retry_delay @
                                 lit '' seconds before retrying...'')])
              | None \<Rightarrow>
                  emit [Create (prompt order_id comment),
                        Log WARNING (lit ''Rate limit exceeded. Waiting '' @ str_int retry_delay @
                                     lit '' seconds before retrying...''),
                        Sleep retry_delay]
                    (attempts clock svc order_id comment max_retries retry_delay (attempt + 1)))
         | APIError e \<Rightarrow>
             (case time_sleep clock retry_delay of
                Some raised \<Rightarrow>
                  (Inl raised,
                   [Create (prompt order_id comment),
                    Log WARNING (lit ''API connection issue: '' @ e @ lit ''. Waiting '' @
                                 str_int retry_delay @ lit '' seconds...'')])
              | None \<Rightarrow>
                  emit [Create (prompt order_id comment),
                        Log WARNING (lit ''API connection issue: '' @ e @ lit ''. Waiting '' @
                                     str_int retry_delay @ lit '' seconds...''),
                        Sleep retry_delay]
                    (attempts clock svc order_id comment max_retries retry_delay (attempt + 1)))
         | OtherException e \<Rightarrow>
             (if int attempt < max_retries - 1
              then
                (case time_sleep clock retry_delay of
                   Some raised \<Rightarrow>
                     (Inl raised,
                      [Create (prompt order_id comment),
                       Log ERROR (lit ''An unexpected error occurred: '' @ e)])
                 | None \<Rightarrow>
                     emit [Create (prompt order_id comment),
                           Log ERROR (lit ''An unexpected error occurred: '' @ e),
                           Sleep retry_delay]
                       (attempts clock svc order_id comment max_retries retry_delay (attempt + 1)))
              else (Inr None, [Create (prompt order_id comment),
                               Log ERROR (lit ''An unexpected error occurred: '' @ e)])))
      else (Inr None,
            [Log ERROR (lit ''Failed to classify comment after '' @ str_int max_retries @
                        lit '' attempts.'')]))"
  by pat_completeness auto
termination
  by (relation "measure (\<lambda>(clock, svc, order_id, comment, max_retries, retry_delay, attempt).
        nat (max_retries - int attempt))") auto

declare attempts.simps [simp del]

definition classify_comment ::
  "(int \<Rightarrow> error option) \<Rightarrow> (nat \<Rightarrow> outcome) \<Rightarrow> pystr \<Rightarrow> pystr \<Rightarrow> int \<Rightarrow> int \<Rightarrow>
     (error + pystr option) \<times> event list"
where
  "classify_comment clock svc order_id comment max_retries retry_delay =
     attempts clock svc order_id comment max_retries retry_delay 0"

text \<open>What a trace says: the calls made and the waits taken.\<close>

fun is_create :: "event \<Rightarrow> bool" where
  "is_create (Create p) = True"
| "is_create e = False"

definition calls :: "event list \<Rightarrow> nat" where
  "calls es = length (filter is_create es)"

fun waits :: "event list \<Rightarrow> int list" where
  "waits [] = []"
| "waits (Sleep d # es) = d # waits es"
| "waits (e # es) = waits es"

fun logged :: "level \<Rightarrow> event list \<Rightarrow> pystr list" where
  "logged l [] = []"
| "logged l (Log l' m # es) = (if l = l' then m # logged l es else logged l es)"
| "logged l (e # es) = logged l es"

section \<open>The resolution action dispatcher\<close>

text \<open>\<open>os.path.join\<close> of two components (\<open>posixpath\<close>): an absolute second
  component replaces the first; no separator is added after an empty first
  component or one that ends with a separator.\<close>

definition path_join :: "pystr \<Rightarrow> pystr \<Rightarrow> pystr" where
  "path_join a b =
     (if take 1 b = [47] then b
      else if a = [] \<or> last a = 47 then a @ b
      else a @ [47] @ b)"

text \<open>How an f-string renders a classification: \<open>None\<close> or the string itself.\<close>

fun str_value :: "pystr option \<Rightarrow> pystr" where
  "str_value None = lit ''None''"
| "str_value (Some s) = s"

definition generate_unresolved_summary :: "pystr \<Rightarrow> pystr \<Rightarrow> pystr" where
  "generate_unresolved_summary order_id comment =
     lit ''Order ID: '' @ order_id @ lit ''\<newline>Comment: '' @ comment @
     lit ''\<newline>Status: Unresolved\<newline>Next Steps: Manual review required.''"

text \<open>
  \<open>ResolutionActions.handle_resolution\<close>. It returns nothing (\<open>Inr ()\<close>) or is left
  by an exception (\<open>Inl\<close>); with it come its effects. \<open>write_file path content\<close> is
  what the statement \<open>with open(path, "w") as f: f.write(content)\<close> raises in the file
  system of the run, if anything: the directory of the path is missing, the path
  cannot be written, the content cannot be encoded. After it nothing is reported
  or uploaded. The upload itself catches what it raises. The progress callback is
  the one the orchestrator passed to the constructor.
\<close>

definition actions_handle_resolution ::
  "(pystr \<Rightarrow> pystr \<Rightarrow> error option) \<Rightarrow> pystr \<Rightarrow> pystr option \<Rightarrow> pystr \<Rightarrow> pystr \<Rightarrow> pystr \<Rightarrow>
     pystr \<Rightarrow> (error + unit) \<times> event list"
where
  "actions_handle_resolution write_file order_id classification comment resolved_folder
       unresolved_folder local_temp_dir =
     (if classification = Some (lit ''Resolved'') then
        (let file_name = order_id @ lit ''_resolved.txt'';
             local_file_path = path_join local_temp_dir file_name;
             s3_file_path = path_join resolved_folder file_name;
             content = lit ''Order ID: '' @ order_id @ lit ''\<newline>Comment: '' @ comment @
                       lit ''\<newline>Status: Resolved''
         in case write_file local_file_path content of
              Some raised \<Rightarrow> (Inl raised, [])
            | None \<Rightarrow>
                (Inr (),
                 [WriteFile local_file_path content,
                  Progress (1 / 2) (lit ''Starting Upload''),
                  Upload local_file_path s3_file_path,
                  Progress 1 (lit ''Finishing Upload'')]))
      else if classification = Some (lit ''Unresolved'') then
        (let file_name = order_id @ lit ''_unresolved.txt'';
             local_file_path = path_join local_temp_dir file_name;
             s3_file_path = path_join unresolved_folder file_name;
             summary = generate_unresolved_summary order_id comment
         in case write_file local_file_path summary of
              Some raised \<Rightarrow> (Inl raised, [])
            | None \<Rightarrow>
                (Inr (),
                 [WriteFile local_file_path summary,
                  Progress (1 / 2) (lit ''Starting Upload''),
                  Upload local_file_path s3_file_path,
                  Progress 1 (lit ''Finishing Upload'')]))
      else (Inr (),
            [Log ERROR (lit ''Invalid classification: '' @ str_value classification @
                        lit '' for order '' @ order_id)]))"

section \<open>The pattern identifier\<close>

type_synonym row = "pystr \<rightharpoonup> cell"

record dataframe =
  columns :: "pystr list"
  rows :: "row list"

text \<open>\<open>df[name].tolist()\<close>, with \<open>None\<close> where a row has no such key.\<close>

definition column_values :: "pystr \<Rightarrow> dataframe \<Rightarrow> cell option list" where
  "column_values name df = map (\<lambda>r. r name) (rows df)"

text \<open>\<open>pd.DataFrame()\<close> and \<open>DataFrame.empty\<close> (an axis of length 0).\<close>

definition empty_frame :: dataframe where
  "empty_frame = \<lparr>columns = [], rows = []\<rparr>"

definition is_empty :: "dataframe \<Rightarrow> bool" where
  "is_empty df = (columns df = [] \<or> rows df = [])"

definition present :: "row \<Rightarrow> bool" where
  "present r = (case r (lit ''comment'') of None \<Rightarrow> False | Some NA \<Rightarrow> False | Some v \<Rightarrow> True)"

text \<open>\<open>dropna(subset=['comment'])\<close>; an unknown column is a \<open>KeyError\<close>.\<close>

definition dropna_comment :: "dataframe \<Rightarrow> error + dataframe" where
  "dropna_comment df =
     (if lit ''comment'' \<in> set (columns df)
      then Inr (df\<lparr>rows := filter present (rows df)\<rparr>)
      else Inl (KeyError (lit ''comment'')))"

definition comment_cell :: "row \<Rightarrow> cell" where
  "comment_cell r = (case r (lit ''comment'') of None \<Rightarrow> NA | Some v \<Rightarrow> v)"

text \<open>\<open>df['cluster'] = clusters\<close>: the column is replaced when it exists and appended
  otherwise; the values are assigned by position and their number must be the
  number of rows.\<close>

definition set_cluster :: "dataframe \<Rightarrow> int list \<Rightarrow> error + dataframe" where
  "set_cluster df clusters =
     (if length clusters \<noteq> length (rows df)
      then Inl (ValueError (lit ''Length of values does not match length of index''))
      else Inr \<lparr>columns = (if lit ''cluster'' \<in> set (columns df) then columns df
                           else columns df @ [lit ''cluster'']),
                rows = map (\<lambda>(r, k). r(lit ''cluster'' \<mapsto> Num k)) (zip (rows df) clusters)\<rparr>)"

text \<open>
  \<open>ResolutionActions.identify_patterns\<close>. The sentence-embedding model and the
  clustering algorithm are libraries outside the repository: \<open>encode\<close> stands for
  \<open>SentenceTransformer.encode\<close> and \<open>fit_predict\<close> for
  \<open>KMeans(n_clusters, random_state=42, n_init=10).fit_predict\<close>.
\<close>

definition identify_patterns ::
  "(cell list \<Rightarrow> 'v list) \<Rightarrow> (int \<Rightarrow> 'v list \<Rightarrow> error + int list) \<Rightarrow> dataframe \<Rightarrow> int \<Rightarrow>
     (error + dataframe) \<times> event list"
where
  "identify_patterns encode fit_predict resolved_comments_df n_clusters =
     (if is_empty resolved_comments_df
      then (Inr empty_frame, [Log WARNING (lit ''No resolved comments to analyze.'')])
      else
        (case dropna_comment resolved_comments_df of
           Inl e \<Rightarrow> (Inl e, [])
         | Inr df \<Rightarrow>
             if is_empty df
             then (Inr empty_frame,
                   [Log WARNING
                      (lit ''No resolved comments to analyze after dropping missing values'')])
             else
               (let comments = map comment_cell (rows df);
                    embeddings = encode comments;
                    called = [Encode comments, FitPredict n_clusters (length embeddings)]
                in case fit_predict n_clusters embeddings of
                     Inl e \<Rightarrow> (Inl e, called)
                   | Inr clusters \<Rightarrow> (set_cluster df clusters, called))))"

text \<open>What the code relies on from the two libraries: one vector per comment, and
  for \<open>1 \<le> k \<le> n\<close> samples one label per sample, each in \<open>[0, k)\<close>.\<close>

definition encode_contract :: "(cell list \<Rightarrow> 'v list) \<Rightarrow> bool" where
  "encode_contract encode = (\<forall>cs. length (encode cs) = length cs)"

definition kmeans_contract :: "(int \<Rightarrow> 'v list \<Rightarrow> error + int list) \<Rightarrow> bool" where
  "kmeans_contract fit_predict =
     (\<forall>k X. 1 \<le> k \<and> k \<le> int (length X) \<longrightarrow>
        (\<exists>ls. fit_predict k X = Inr ls \<and> length ls = length X \<and> (\<forall>l \<in> set ls. 0 \<le> l \<and> l < k)))"

text \<open>A stand-in for the two libraries that meets the contract: every comment is
  embedded as its position and every sample is put in cluster 0.\<close>

definition position_encode :: "cell list \<Rightarrow> nat list" where
  "position_encode cs = [0..<length cs]"

definition single_cluster :: "int \<Rightarrow> nat list \<Rightarrow> error + int list" where
  "single_cluster k X =
     (if 1 \<le> k \<and> k \<le> int (length X) then Inr (replicate (length X) 0)
      else Inl (ValueError (lit ''n_samples should be >= n_clusters'')))"

section \<open>The orchestrator\<close>

record config =
  gcs_resolved_folder :: pystr
  gcs_unresolved_folder :: pystr
  local_temp_dir :: pystr
  num_clusters :: int

text \<open>
  What a run meets outside the repository: the completion service as the record
  at a position meets it, the platform's clock, the file system for the scratch
  files, what the constructors of the classifier, the storage client and the
  embedding model raise (if anything), the two libraries of the pattern
  identifier, and what \<open>purge\<close> of the scratch directory raises (if anything).
\<close>

record 'v environment =
  env_completion :: "nat \<Rightarrow> nat \<Rightarrow> outcome"
  env_clock :: "int \<Rightarrow> error option"
  env_write :: "pystr \<Rightarrow> pystr \<Rightarrow> error option"
  env_setup :: "error option"
  env_encode :: "cell list \<Rightarrow> 'v list"
  env_fit_predict :: "int \<Rightarrow> 'v list \<Rightarrow> error + int list"
  env_purge :: "pystr \<Rightarrow> error option"

text \<open>The dictionary appended to \<open>processed_data\<close>.\<close>

definition result_row :: "pystr \<Rightarrow> pystr \<Rightarrow> pystr option \<Rightarrow> row" where
  "result_row order_id comment classification =
     [lit ''order_id'' \<mapsto> Str order_id, lit ''comment'' \<mapsto> Str comment,
      lit ''status'' \<mapsto> (case classification of None \<Rightarrow> NA | Some status \<Rightarrow> Str status)]"

text \<open>Python's truth value of what \<open>classify_comment\<close> returned.\<close>

fun truthy :: "pystr option \<Rightarrow> bool" where
  "truthy None = False"
| "truthy (Some s) = (s \<noteq> [])"

text \<open>
  The loop of \<open>handle_resolution\<close> in \<open>main.py\<close> over \<open>comments_df.iterrows()\<close>. A
  row of \<open>comments_df\<close> is its index label, its \<open>Transaction ID\<close> and its
  \<open>Comments\<close>; \<open>position\<close> counts the rows done. The result is \<open>processed_data\<close>, or
  the exception that ends the loop: nothing inside the loop catches what the
  classifier or the dispatcher raises.
\<close>

fun loop_from ::
  "'v environment \<Rightarrow> config \<Rightarrow> nat \<Rightarrow> nat \<Rightarrow> (int \<times> pystr \<times> pystr) list \<Rightarrow>
     (error + row list) \<times> event list"
where
  "loop_from env cfg total_comments position [] = (Inr [], [])"
| "loop_from env cfg total_comments position ((index, order_id, comment) # rest) =
     (let report = Progress (of_int index / of_nat total_comments)
                     (lit ''Processing Resolution: '' @ str_int (index + 1) @ lit '' / '' @
                      str_nat total_comments);
          result = classify_comment (env_clock env) (env_completion env position)
                     order_id comment 3 5
      in case fst result of
           Inl raised \<Rightarrow> (Inl raised, report # snd result)
         | Inr classification \<Rightarrow>
             if truthy classification then
               (let action = actions_handle_resolution (env_write env) order_id classification
                               comment (gcs_resolved_folder cfg) (gcs_unresolved_folder cfg)
                               (local_temp_dir cfg)
                in case fst action of
                     Inl raised \<Rightarrow> (Inl raised, report # snd result @ snd action)
                   | Inr done \<Rightarrow>
                       (let later = loop_from env cfg total_comments (position + 1) rest
                        in (map_sum id (\<lambda>processed_data.
                                 result_row order_id comment classification # processed_data)
                              (fst later),
                            report # snd result @ snd action @ snd later)))
             else
               (let later = loop_from env cfg total_comments (position + 1) rest
                in (fst later, report # snd result @ snd later)))"

text \<open>\<open>pd.DataFrame(processed_data)\<close>: without rows there are no columns either.\<close>

definition data_frame :: "row list \<Rightarrow> dataframe" where
  "data_frame processed_data =
     (if processed_data = [] then empty_frame
      else \<lparr>columns = [lit ''order_id'', lit ''comment'', lit ''status''],
            rows = processed_data\<rparr>)"

text \<open>\<open>df[df['status'] == 'Resolved'].copy()\<close>; an unknown column is a \<open>KeyError\<close>.\<close>

definition select_resolved :: "dataframe \<Rightarrow> error + dataframe" where
  "select_resolved df =
     (if lit ''status'' \<in> set (columns df)
      then Inr (df\<lparr>rows := filter (\<lambda>r. r (lit ''status'') = Some (Str (lit ''Resolved'')))
                               (rows df)\<rparr>)
      else Inl (KeyError (lit ''status'')))"

text \<open>The body of the \<open>try\<close> statement of \<open>handle_resolution\<close>: the two tables it
  returns, or the exception that leaves it.\<close>

definition resolution_steps ::
  "'v environment \<Rightarrow> config \<Rightarrow> (int \<times> pystr \<times> pystr) list \<Rightarrow>
     (error + dataframe \<times> dataframe) \<times> event list"
where
  "resolution_steps env cfg comments_df =
     (let started = [Progress 0 (lit ''Starting Resolution'')]
      in case env_setup env of
           Some raised \<Rightarrow> (Inl raised, started)
         | None \<Rightarrow>
             (let looped = loop_from env cfg (length comments_df) 0 comments_df
              in case fst looped of
                   Inl raised \<Rightarrow> (Inl raised, started @ snd looped)
                 | Inr processed_data \<Rightarrow>
                     (let processed_data_df = data_frame processed_data
                      in case select_resolved processed_data_df of
                           Inl raised \<Rightarrow> (Inl raised, started @ snd looped)
                         | Inr resolved_comments_df \<Rightarrow>
                             (let analysed = identify_patterns (env_encode env)
                                    (env_fit_predict env) resolved_comments_df (num_clusters cfg)
                              in case fst analysed of
                                   Inl raised \<Rightarrow>
                                     (Inl raised, started @ snd looped @ snd analysed)
                                 | Inr pattern_analysis_results \<Rightarrow>
                                     (case env_purge env (local_temp_dir cfg) of
                                        Some raised \<Rightarrow>
                                          (Inl raised, started @ snd looped @ snd analysed)
                                      | None \<Rightarrow>
                                          (Inr (processed_data_df, pattern_analysis_results),
                                           started @ snd looped @ snd analysed @
                                           [Purge (local_temp_dir cfg),
                                            Log INFO (lit ''Resolution handling complete.''),
                                            Progress 1 (lit ''Finishing Resolution'')]))))))"

text \<open>
  \<open>handle_resolution\<close> of \<open>main.py\<close>: the result table, the pattern table and the
  message. Without comments it returns at once; an exception in the body is
  logged and answered with no table.
\<close>

definition handle_resolution ::
  "'v environment \<Rightarrow> config \<Rightarrow> (int \<times> pystr \<times> pystr) list option \<Rightarrow>
     (dataframe option \<times> dataframe option \<times> pystr) \<times> event list"
where
  "handle_resolution env cfg comments_df =
     (case comments_df of
        None \<Rightarrow> ((None, None, lit ''No comments data available.''), [])
      | Some records \<Rightarrow>
          if records = [] then ((None, None, lit ''No comments data available.''), [])
          else
            (let tried = resolution_steps env cfg records
             in case fst tried of
                  Inl e \<Rightarrow>
                    ((None, None, str_error e),
                     snd tried @ [Log ERROR (lit ''Resolution handling error: '' @ str_error e)])
                | Inr (processed_data_df, pattern_analysis_results) \<Rightarrow>
                    ((Some processed_data_df, Some pattern_analysis_results,
                      lit ''Resolution handling complete.''),
                     snd tried)))"

text \<open>The fractions reported to the progress indicator, in order.\<close>

fun fractions :: "event list \<Rightarrow> rat list" where
  "fractions [] = []"
| "fractions (Progress f d # es) = f # fractions es"
| "fractions (e # es) = fractions es"

text \<open>The reports of the loop itself, told from the others by their description.\<close>

fun is_report :: "event \<Rightarrow> bool" where
  "is_report (Progress f d) = prefix (lit ''Processing Resolution: '') d"
| "is_report e = False"

definition reports :: "event list \<Rightarrow> rat list" where
  "reports es = fractions (filter is_report es)"

text \<open>
  Runs to try the orchestrator on: a clock that accepts every delay, constructors
  and a purge that raise nothing, the stand-ins for the two libraries; the
  folders are the defaults of \<open>config.py\<close>.
\<close>

definition quiet_environment ::
  "(nat \<Rightarrow> nat \<Rightarrow> outcome) \<Rightarrow> (pystr \<Rightarrow> pystr \<Rightarrow> error option) \<Rightarrow> nat environment"
where
  "quiet_environment completion write_file =
     \<lparr>env_completion = completion, env_clock = (\<lambda>secs. None), env_write = write_file,
      env_setup = None, env_encode = position_encode, env_fit_predict = single_cluster,
      env_purge = (\<lambda>dir. None)\<rparr>"

definition default_config :: "int \<Rightarrow> config" where
  "default_config n_clusters =
     \<lparr>gcs_resolved_folder = lit ''processed/resolved'',
      gcs_unresolved_folder = lit ''processed/unresolved'',
      local_temp_dir = lit ''temp'', num_clusters = n_clusters\<rparr>"

section \<open>Properties\<close>

subsection \<open>Traces\<close>

lemma fst_emit [simp]: "fst (emit es r) = fst r"
  by (simp add: emit_def)

lemma snd_emit [simp]: "snd (emit es r) = es @ snd r"
  by (simp add: emit_def)

lemma calls_append [simp]: "calls (es @ fs) = calls es + calls fs"
  by (simp add: calls_def)

lemma calls_Nil [simp]: "calls [] = 0"
  by (simp add: calls_def)

lemma calls_Cons [simp]: "calls (e # es) = (if is_create e then 1 else 0) + calls es"
  by (simp add: calls_def)

lemma waits_append [simp]: "waits (es @ fs) = waits es @ waits fs"
  by (induction es rule: waits.induct) simp_all

lemma logged_append [simp]: "logged l (es @ fs) = logged l es @ logged l fs"
  by (induction l es rule: logged.induct) simp_all

subsection \<open>Strings and the regular expression\<close>

lemma strip_last_not_space: "strip raw = t @ [c] \<Longrightarrow> \<not> isspace c"
proof -
  assume h: "strip raw = t @ [c]"
  then have "dropWhile isspace (rev (dropWhile isspace raw)) = c # rev t"
    by (simp add: strip_def rev_swap)
  then show ?thesis
    using hd_dropWhile [of isspace "rev (dropWhile isspace raw)"] by auto
qed

lemma match_word_Some:
  "match_word w s = Some r \<Longrightarrow> \<exists>t. s = t @ r \<and> list_all2 literal_ignore w t"
proof (induction w s rule: match_word.induct)
  case (1 s)
  then show ?case by simp
next
  case (2 p ps)
  then show ?case by simp
next
  case (3 p ps c cs)
  then have li: "literal_ignore p c" and m: "match_word ps cs = Some r"
    by (auto split: if_splits)
  from "3.IH" [OF li m] obtain t where "cs = t @ r" "list_all2 literal_ignore ps t"
    by blast
  then have "c # cs = (c # t) @ r \<and> list_all2 literal_ignore (p # ps) (c # t)"
    using li by simp
  then show ?case by blast
qed

lemma match_word_all2:
  "list_all2 literal_ignore w t \<Longrightarrow> match_word w (t @ r) = Some r"
  by (induction w t rule: list_all2_induct) simp_all

lemma alternative_iff:
  "alternative w s \<longleftrightarrow> (\<exists>t. list_all2 literal_ignore w t \<and> (s = t \<or> s = t @ [10]))"
proof
  assume "alternative w s"
  then obtain r where r: "match_word w s = Some r" "at_end r"
    by (auto simp: alternative_def split: option.splits)
  from match_word_Some [OF r(1)] obtain t where "s = t @ r" "list_all2 literal_ignore w t"
    by blast
  with r(2) show "\<exists>t. list_all2 literal_ignore w t \<and> (s = t \<or> s = t @ [10])"
    by (auto simp: at_end_def)
next
  assume "\<exists>t. list_all2 literal_ignore w t \<and> (s = t \<or> s = t @ [10])"
  then obtain t where t: "list_all2 literal_ignore w t" "s = t \<or> s = t @ [10]"
    by blast
  from t(2) show "alternative w s"
  proof
    assume "s = t"
    with match_word_all2 [OF t(1), of "[]"] show ?thesis
      by (simp add: alternative_def at_end_def)
  next
    assume "s = t @ [10]"
    with match_word_all2 [OF t(1), of "[10]"] show ?thesis
      by (simp add: alternative_def at_end_def)
  qed
qed

lemma alternative_strip:
  "alternative w (strip raw) \<longleftrightarrow> list_all2 literal_ignore w (strip raw)"
proof -
  have "\<not> isspace c" if "strip raw = t @ [c]" for t c
    using that by (rule strip_last_not_space)
  then have "strip raw \<noteq> t @ [10]" for t
    by (auto simp: isspace_def)
  then show ?thesis
    by (auto simp: alternative_iff)
qed

lemma re_match_strip:
  "re_match (strip raw) \<longleftrightarrow>
     list_all2 literal_ignore (lit ''Resolved'') (strip raw) \<or>
     list_all2 literal_ignore (lit ''Unresolved'') (strip raw)"
  by (simp add: re_match_def alternative_strip)

lemma literal_ignore_lower: "py_lower c = py_lower p \<Longrightarrow> literal_ignore p c"
  by (simp add: literal_ignore_def)

lemma all2_of_lower:
  "map py_lower s = map py_lower w \<Longrightarrow> list_all2 literal_ignore w s"
proof (induction w arbitrary: s)
  case Nil
  then show ?case by simp
next
  case (Cons p ps)
  then obtain c cs where "s = c # cs" "py_lower c = py_lower p" "map py_lower cs = map py_lower ps"
    by (auto simp: map_eq_Cons_conv)
  then show ?case
    using Cons.IH [of cs] by (simp add: literal_ignore_lower)
qed

lemma capitalize_of_lower:
  "map py_lower s = l # ls \<Longrightarrow> capitalize s = py_title (hd s) # ls"
  by (cases s) auto

lemma lit_resolved: "lit ''resolved'' = [114, 101, 115, 111, 108, 118, 101, 100]"
  by (simp add: lit_def)

lemma lit_Resolved: "lit ''Resolved'' = [82, 101, 115, 111, 108, 118, 101, 100]"
  by (simp add: lit_def)

lemma lit_unresolved: "lit ''unresolved'' = [117, 110, 114, 101, 115, 111, 108, 118, 101, 100]"
  by (simp add: lit_def)

lemma lit_Unresolved: "lit ''Unresolved'' = [85, 110, 114, 101, 115, 111, 108, 118, 101, 100]"
  by (simp add: lit_def)

lemma lower_Resolved: "map py_lower (lit ''Resolved'') = lit ''resolved''"
  by (simp add: lit_Resolved lit_resolved py_lower_def)

lemma lower_Unresolved: "map py_lower (lit ''Unresolved'') = lit ''unresolved''"
  by (simp add: lit_Unresolved lit_unresolved py_lower_def)

lemma title_r: "py_lower c = 114 \<Longrightarrow> py_title c = 82"
  by (auto simp: py_lower_def py_title_def split: if_splits)

lemma title_u: "py_lower c = 117 \<Longrightarrow> py_title c = 85"
  by (auto simp: py_lower_def py_title_def split: if_splits)

lemma casing_resolved:
  assumes "map py_lower s = lit ''resolved''"
  shows "re_match s \<and> capitalize s = lit ''Resolved''"
proof -
  from assms have "list_all2 literal_ignore (lit ''Resolved'') s"
    by (simp add: all2_of_lower lower_Resolved)
  then have m: "re_match s"
    using alternative_iff [of "lit ''Resolved''" s] by (auto simp: re_match_def)
  from assms obtain c cs where s: "s = c # cs" and c: "py_lower c = 114"
    by (auto simp: lit_resolved map_eq_Cons_conv)
  from assms have "capitalize s = py_title (hd s) # [101, 115, 111, 108, 118, 101, 100]"
    by (intro capitalize_of_lower) (simp add: lit_resolved)
  with s c m show ?thesis
    by (simp add: title_r lit_Resolved)
qed

lemma casing_unresolved:
  assumes "map py_lower s = lit ''unresolved''"
  shows "re_match s \<and> capitalize s = lit ''Unresolved''"
proof -
  from assms have "list_all2 literal_ignore (lit ''Unresolved'') s"
    by (simp add: all2_of_lower lower_Unresolved)
  then have m: "re_match s"
    using alternative_iff [of "lit ''Unresolved''" s] by (auto simp: re_match_def)
  from assms obtain c cs where s: "s = c # cs" and c: "py_lower c = 117"
    by (auto simp: lit_unresolved map_eq_Cons_conv)
  from assms have "capitalize s = py_title (hd s) # [110, 114, 101, 115, 111, 108, 118, 101, 100]"
    by (intro capitalize_of_lower) (simp add: lit_unresolved)
  with s c m show ?thesis
    by (simp add: title_u lit_Unresolved)
qed

lemma re_match_not_Nil: "re_match s \<Longrightarrow> s \<noteq> []"
  by (auto simp: re_match_def alternative_def lit_def)

lemma capitalize_Nil_iff [simp]: "capitalize s = [] \<longleftrightarrow> s = []"
  by (cases s) simp_all

lemma list_all2_set_right:
  "list_all2 P xs ys \<Longrightarrow> y \<in> set ys \<Longrightarrow> \<exists>x \<in> set xs. P x y"
  by (induction xs ys rule: list_all2_induct) auto

lemma literal_ignore_letter:
  assumes "literal_ignore p c" and "p \<in> set (lit ''Resolved'') \<union> set (lit ''Unresolved'')"
  shows "c = 383 \<or> (65 \<le> c \<and> c \<le> 90) \<or> (97 \<le> c \<and> c \<le> 122)"
  using assms
  by (auto simp: lit_Resolved lit_Unresolved literal_ignore_def ignorecase_fixes_def py_lower_def
      split: if_splits)

text \<open>The strings the classifier capitalizes consist of ASCII letters and U+017F,
  on which \<open>py_lower\<close> and \<open>py_title\<close> are CPython's mappings.\<close>

lemma re_match_chars:
  assumes "re_match (strip raw)" and "c \<in> set (strip raw)"
  shows "c = 383 \<or> (65 \<le> c \<and> c \<le> 90) \<or> (97 \<le> c \<and> c \<le> 122)"
proof -
  from assms(1) obtain w where w: "w = lit ''Resolved'' \<or> w = lit ''Unresolved''"
      "list_all2 literal_ignore w (strip raw)"
    by (auto simp: re_match_strip)
  from list_all2_set_right [OF w(2) assms(2)] obtain p where "p \<in> set w" "literal_ignore p c"
    by blast
  with w(1) show ?thesis
    using literal_ignore_letter [of p c] by auto
qed

subsection \<open>One attempt of the classifier\<close>

text \<open>The delays that \<open>time.sleep\<close> accepts.\<close>

lemma time_sleep_None_iff: "time_sleep clock secs = None \<longleftrightarrow> 0 \<le> secs \<and> clock secs = None"
  by (simp add: time_sleep_def)

lemma attempts_exhausted:
  "\<not> int attempt < max_retries \<Longrightarrow>
   attempts clock svc order_id comment max_retries retry_delay attempt =
     (Inr None, [Log ERROR (lit ''Failed to classify comment after '' @ str_int max_retries @
                            lit '' attempts.'')])"
  by (subst attempts.simps) simp

lemma attempts_valid:
  "int attempt < max_retries \<Longrightarrow> svc attempt = Content raw \<Longrightarrow> re_match (strip raw) \<Longrightarrow>
   attempts clock svc order_id comment max_retries retry_delay attempt =
     (Inr (Some (capitalize (strip raw))), [Create (prompt order_id comment)])"
  by (subst attempts.simps) simp

lemma attempts_invalid:
  "int attempt < max_retries \<Longrightarrow> svc attempt = Content raw \<Longrightarrow> \<not> re_match (strip raw) \<Longrightarrow>
   attempts clock svc order_id comment max_retries retry_delay attempt =
     emit [Create (prompt order_id comment),
           Log WARNING (lit ''Invalid LLM response: '' @ strip raw @ lit ''. Retrying...'')]
       (attempts clock svc order_id comment max_retries retry_delay (attempt + 1))"
  by (subst attempts.simps) simp

lemma attempts_rate_limit:
  "int attempt < max_retries \<Longrightarrow> svc attempt = RateLimitError \<Longrightarrow>
   time_sleep clock retry_delay = None \<Longrightarrow>
   attempts clock svc order_id comment max_retries retry_delay attempt =
     emit [Create (prompt order_id comment),
           Log WARNING (lit ''Rate limit exceeded. Waiting '' @ str_int retry_delay @
                        lit '' seconds before retrying...''),
           Sleep retry_delay]
       (attempts clock svc order_id comment max_retries retry_delay (attempt + 1))"
  by (subst attempts.simps) simp

lemma attempts_api_error:
  "int attempt < max_retries \<Longrightarrow> svc attempt = APIError e \<Longrightarrow>
   time_sleep clock retry_delay = None \<Longrightarrow>
   attempts clock svc order_id comment max_retries retry_delay attempt =
     emit [Create (prompt order_id comment),
           Log WARNING (lit ''API connection issue: '' @ e @ lit ''. Waiting '' @
                        str_int retry_delay @ lit '' seconds...''),
           Sleep retry_delay]
       (attempts clock svc order_id comment max_retries retry_delay (attempt + 1))"
  by (subst attempts.simps) simp

lemma attempts_other_retry:
  "int attempt < max_retries - 1 \<Longrightarrow> svc attempt = OtherException e \<Longrightarrow>
   time_sleep clock retry_delay = None \<Longrightarrow>
   attempts clock svc order_id comment max_retries retry_delay attempt =
     emit [Create (prompt order_id comment),
           Log ERROR (lit ''An unexpected error occurred: '' @ e),
           Sleep retry_delay]
       (attempts clock svc order_id comment max_retries retry_delay (attempt + 1))"
  by (subst attempts.simps) simp

lemma attempts_other_final:
  "int attempt = max_retries - 1 \<Longrightarrow> svc attempt = OtherException e \<Longrightarrow>
   attempts clock svc order_id comment max_retries retry_delay attempt =
     (Inr None, [Create (prompt order_id comment),
                 Log ERROR (lit ''An unexpected error occurred: '' @ e)])"
  by (subst attempts.simps) simp

text \<open>A sleep that raises ends the call with that exception, whichever handler it
  is in.\<close>

lemma attempts_sleep_raises:
  assumes "int attempt < max_retries" and "time_sleep clock retry_delay = Some raised"
    and "svc attempt = RateLimitError \<or> (\<exists>e. svc attempt = APIError e) \<or>
         ((\<exists>e. svc attempt = OtherException e) \<and> int attempt < max_retries - 1)"
  shows "fst (attempts clock svc order_id comment max_retries retry_delay attempt) = Inl raised \<and>
         calls (snd (attempts clock svc order_id comment max_retries retry_delay attempt)) = 1 \<and>
         waits (snd (attempts clock svc order_id comment max_retries retry_delay attempt)) = []"
  using assms by (subst (1 2 3) attempts.simps) auto

subsection \<open>Whole runs of the classifier\<close>

lemma invalid_run:
  assumes "\<forall>k. int k < max_retries \<longrightarrow> (\<exists>raw. svc k = Content raw \<and> \<not> re_match (strip raw))"
  shows "fst (attempts clock svc order_id comment max_retries retry_delay attempt) = Inr None \<and>
         calls (snd (attempts clock svc order_id comment max_retries retry_delay attempt)) =
           nat (max_retries - int attempt) \<and>
         waits (snd (attempts clock svc order_id comment max_retries retry_delay attempt)) = [] \<and>
         length (logged WARNING (snd (attempts clock svc order_id comment max_retries retry_delay attempt))) =
           nat (max_retries - int attempt)"
  using assms
proof (induction clock svc order_id comment max_retries retry_delay attempt rule: attempts.induct)
  case (1 clock svc order_id comment max_retries retry_delay attempt)
  show ?case
  proof (cases "int attempt < max_retries")
    case False
    then show ?thesis by (simp add: attempts_exhausted)
  next
    case True
    with "1.prems" obtain raw where raw: "svc attempt = Content raw" "\<not> re_match (strip raw)"
      by blast
    have ih: "fst (attempts clock svc order_id comment max_retries retry_delay (attempt + 1)) = Inr None \<and>
         calls (snd (attempts clock svc order_id comment max_retries retry_delay (attempt + 1))) =
           nat (max_retries - int (attempt + 1)) \<and>
         waits (snd (attempts clock svc order_id comment max_retries retry_delay (attempt + 1))) = [] \<and>
         length (logged WARNING (snd (attempts clock svc order_id comment max_retries retry_delay (attempt + 1)))) =
           nat (max_retries - int (attempt + 1))"
      using "1.IH"(1) [OF True raw(1) refl raw(2)] "1.prems" by simp
    from True have "nat (max_retries - int attempt) = Suc (nat (max_retries - int (attempt + 1)))"
      by simp
    with ih show ?thesis
      using attempts_invalid [of attempt max_retries svc raw clock order_id comment retry_delay] True raw
      by simp
  qed
qed

text \<open>Whatever the service does, a returned label is the capitalized form of a
  response that passed the regular expression.\<close>

lemma attempts_Some:
  "fst (attempts clock svc order_id comment max_retries retry_delay attempt) = Inr (Some r) \<Longrightarrow>
   \<exists>k raw. svc k = Content raw \<and> re_match (strip raw) \<and> r = capitalize (strip raw)"
proof (induction clock svc order_id comment max_retries retry_delay attempt rule: attempts.induct)
  case (1 clock svc order_id comment max_retries retry_delay attempt)
  show ?case
  proof (cases "int attempt < max_retries")
    case False
    with "1.prems" show ?thesis by (simp add: attempts_exhausted)
  next
    case True
    show ?thesis
    proof (cases "svc attempt")
      case (Content raw)
      show ?thesis
      proof (cases "re_match (strip raw)")
        case True
        with "1.prems" \<open>int attempt < max_retries\<close> Content show ?thesis
          by (auto simp: attempts_valid)
      next
        case False
        with "1.prems" \<open>int attempt < max_retries\<close> Content
        have "fst (attempts clock svc order_id comment max_retries retry_delay (attempt + 1)) =
            Inr (Some r)"
          by (simp add: attempts_invalid)
        with "1.IH"(1) [OF \<open>int attempt < max_retries\<close> Content refl False] show ?thesis .
      qed
    next
      case RateLimitError
      show ?thesis
      proof (cases "time_sleep clock retry_delay")
        case None
        with "1.prems" True RateLimitError
        have "fst (attempts clock svc order_id comment max_retries retry_delay (attempt + 1)) =
            Inr (Some r)"
          by (simp add: attempts_rate_limit)
        with "1.IH"(2) [OF True RateLimitError None] show ?thesis .
      next
        case (Some raised)
        with "1.prems" attempts_sleep_raises [OF True Some, of svc order_id comment]
          RateLimitError show ?thesis by simp
      qed
    next
      case (APIError e)
      show ?thesis
      proof (cases "time_sleep clock retry_delay")
        case None
        with "1.prems" True APIError
        have "fst (attempts clock svc order_id comment max_retries retry_delay (attempt + 1)) =
            Inr (Some r)"
          by (simp add: attempts_api_error)
        with "1.IH"(3) [OF True APIError None] show ?thesis .
      next
        case (Some raised)
        with "1.prems" attempts_sleep_raises [OF True Some, of svc order_id comment]
          APIError show ?thesis by simp
      qed
    next
      case (OtherException e)
      show ?thesis
      proof (cases "int attempt < max_retries - 1")
        case retry: True
        show ?thesis
        proof (cases "time_sleep clock retry_delay")
          case None
          with "1.prems" OtherException retry
          have "fst (attempts clock svc order_id comment max_retries retry_delay (attempt + 1)) =
              Inr (Some r)"
            by (simp add: attempts_other_retry)
          with "1.IH"(4) [OF \<open>int attempt < max_retries\<close> OtherException retry None]
          show ?thesis .
        next
          case (Some raised)
          with "1.prems" attempts_sleep_raises [OF True Some, of svc order_id comment]
            OtherException retry show ?thesis by simp
        qed
      next
        case False
        with \<open>int attempt < max_retries\<close> have "int attempt = max_retries - 1" by simp
        with "1.prems" OtherException show ?thesis
          by (simp add: attempts_other_final)
      qed
    qed
  qed
qed

text \<open>When the sleep does not raise, nothing leaves the classifier.\<close>

lemma attempts_returns:
  "time_sleep clock retry_delay = None \<Longrightarrow>
   \<exists>r. fst (attempts clock svc order_id comment max_retries retry_delay attempt) = Inr r"
proof (induction clock svc order_id comment max_retries retry_delay attempt rule: attempts.induct)
  case (1 clock svc order_id comment max_retries retry_delay attempt)
  show ?case
  proof (cases "int attempt < max_retries")
    case False
    then show ?thesis by (simp add: attempts_exhausted)
  next
    case True
    show ?thesis
    proof (cases "svc attempt")
      case (Content raw)
      show ?thesis
      proof (cases "re_match (strip raw)")
        case True
        with \<open>int attempt < max_retries\<close> Content show ?thesis
          by (simp add: attempts_valid)
      next
        case False
        with "1.IH"(1) [OF \<open>int attempt < max_retries\<close> Content refl False "1.prems"]
          \<open>int attempt < max_retries\<close> Content
        show ?thesis by (simp add: attempts_invalid)
      qed
    next
      case RateLimitError
      with "1.IH"(2) [OF True RateLimitError "1.prems" "1.prems"] True "1.prems"
      show ?thesis by (simp add: attempts_rate_limit)
    next
      case (APIError e)
      with "1.IH"(3) [OF True APIError "1.prems" "1.prems"] True "1.prems"
      show ?thesis by (simp add: attempts_api_error)
    next
      case (OtherException e)
      show ?thesis
      proof (cases "int attempt < max_retries - 1")
        case retry: True
        with "1.IH"(4) [OF \<open>int attempt < max_retries\<close> OtherException retry "1.prems" "1.prems"]
          OtherException "1.prems"
        show ?thesis by (simp add: attempts_other_retry)
      next
        case False
        with \<open>int attempt < max_retries\<close> have "int attempt = max_retries - 1" by simp
        with OtherException show ?thesis
          by (simp add: attempts_other_final)
      qed
    qed
  qed
qed

lemma classify_comment_label_not_empty:
  assumes "fst (classify_comment clock svc order_id comment max_retries retry_delay) = Inr (Some r)"
  shows "r \<noteq> []"
proof -
  from assms obtain raw where "re_match (strip raw)" "r = capitalize (strip raw)"
    using attempts_Some [of clock svc order_id comment max_retries retry_delay 0 r]
    by (auto simp: classify_comment_def)
  then show ?thesis
    by (simp add: re_match_not_Nil)
qed

lemma fractions_attempts [simp]:
  "fractions (snd (attempts clock svc order_id comment max_retries retry_delay attempt)) = []"
proof (induction clock svc order_id comment max_retries retry_delay attempt rule: attempts.induct)
  case (1 clock svc order_id comment max_retries retry_delay attempt)
  show ?case
    apply (subst attempts.simps)
    using "1.IH" apply (auto simp: Let_def emit_def split: outcome.splits option.splits)
    done
qed

lemma filter_report_attempts [simp]:
  "filter is_report (snd (attempts clock svc order_id comment max_retries retry_delay attempt)) = []"
proof (induction clock svc order_id comment max_retries retry_delay attempt rule: attempts.induct)
  case (1 clock svc order_id comment max_retries retry_delay attempt)
  show ?case
    apply (subst attempts.simps)
    using "1.IH" apply (auto simp: Let_def emit_def split: outcome.splits option.splits)
    done
qed

subsection \<open>Claims about the classifier\<close>

text \<open>A response that is, once stripped, an ASCII casing of one of the two
  labels is returned in its canonical form by the first attempt.\<close>

lemma classify_comment_ascii_casing:
  assumes "0 < max_retries" and "svc 0 = Content raw"
  shows "map py_lower (strip raw) = lit ''resolved'' \<Longrightarrow>
           classify_comment clock svc order_id comment max_retries retry_delay =
             (Inr (Some (lit ''Resolved'')), [Create (prompt order_id comment)])"
    and "map py_lower (strip raw) = lit ''unresolved'' \<Longrightarrow>
           classify_comment clock svc order_id comment max_retries retry_delay =
             (Inr (Some (lit ''Unresolved'')), [Create (prompt order_id comment)])"
  using assms attempts_valid [of 0 max_retries svc raw clock order_id comment retry_delay]
    casing_resolved [of "strip raw"] casing_unresolved [of "strip raw"]
  by (simp_all add: classify_comment_def)

text \<open>
  C1. A response that is \<open>Resolved\<close> or \<open>Unresolved\<close> in any casing yields the
  canonical label, and any other content does not match and is not returned. The
  second half fails: \<open>Re\<close>, U+017F, \<open>olved\<close> is not a casing of a label in which
  only the case of letters differs, yet the regular expression accepts it and
  \<open>classify_comment\<close> returns it, unchanged, as the classification.
\<close>

theorem classify_comment_accepts_long_s:
  "map py_lower [82, 101, 383, 111, 108, 118, 101, 100] \<noteq> lit ''resolved'' \<and>
   re_match (strip [82, 101, 383, 111, 108, 118, 101, 100]) \<and>
   fst (classify_comment clock (\<lambda>k. Content [82, 101, 383, 111, 108, 118, 101, 100])
          (lit ''order123'') (lit ''Issue resolved.'') 3 5) =
     Inr (Some [82, 101, 383, 111, 108, 118, 101, 100])"
proof -
  have s: "strip [82, 101, 383, 111, 108, 118, 101, 100] = [82, 101, 383, 111, 108, 118, 101, 100]"
    by (simp add: strip_def isspace_def)
  have m: "re_match [82, 101, 383, 111, 108, 118, 101, 100]"
    by (simp add: re_match_def alternative_def lit_Resolved literal_ignore_def
        ignorecase_fixes_def py_lower_def at_end_def)
  have c: "capitalize [82, 101, 383, 111, 108, 118, 101, 100] = [82, 101, 383, 111, 108, 118, 101, 100]"
    by (simp add: py_lower_def py_title_def)
  have n: "map py_lower [82, 101, 383, 111, 108, 118, 101, 100] \<noteq> lit ''resolved''"
    by (simp add: lit_resolved py_lower_def)
  show ?thesis
    using attempts_valid [of 0 3 "\<lambda>k. Content [82, 101, 383, 111, 108, 118, 101, 100]"
        "[82, 101, 383, 111, 108, 118, 101, 100]" clock "lit ''order123''" "lit ''Issue resolved.''" 5]
      s m c n
    by (simp add: classify_comment_def)
qed

text \<open>
  C2 (as amended). If every call returns a response that fails the two-label
  grammar, \<open>classify_comment\<close> logs one warning per attempt and retries at once,
  without any wait; it returns \<open>None\<close> after \<open>max_retries\<close> calls (none when
  \<open>max_retries\<close> is negative).
\<close>

theorem classify_comment_invalid_responses:
  assumes "\<forall>k. int k < max_retries \<longrightarrow> (\<exists>raw. svc k = Content raw \<and> \<not> re_match (strip raw))"
  shows "fst (classify_comment clock svc order_id comment max_retries retry_delay) = Inr None \<and>
         int (calls (snd (classify_comment clock svc order_id comment max_retries retry_delay))) =
           max 0 max_retries \<and>
         waits (snd (classify_comment clock svc order_id comment max_retries retry_delay)) = [] \<and>
         int (length (logged WARNING
                (snd (classify_comment clock svc order_id comment max_retries retry_delay)))) =
           max 0 max_retries"
  using invalid_run [OF assms, of clock order_id comment retry_delay 0]
  by (auto simp: classify_comment_def)

lemma invalid_response_no_match: "\<not> re_match (strip (lit ''Invalid response''))"
  by (simp add: strip_def isspace_def lit_def re_match_def alternative_def literal_ignore_def
      ignorecase_fixes_def py_lower_def)

theorem classify_comment_invalid_responses_witness:
  "fst (classify_comment (\<lambda>secs. None) (\<lambda>k. Content (lit ''Invalid response''))
          (lit ''order789'') (lit ''Some comment.'') 3 5) = Inr None \<and>
   calls (snd (classify_comment (\<lambda>secs. None) (\<lambda>k. Content (lit ''Invalid response''))
          (lit ''order789'') (lit ''Some comment.'') 3 5)) = 3"
proof -
  have h: "\<forall>k. int k < 3 \<longrightarrow>
      (\<exists>raw. (\<lambda>k. Content (lit ''Invalid response'')) k = Content raw \<and> \<not> re_match (strip raw))"
    using invalid_response_no_match by simp
  show ?thesis
    using classify_comment_invalid_responses
      [OF h, of "\<lambda>secs. None" "lit ''order789''" "lit ''Some comment.''" 5]
    by simp
qed

text \<open>C2 as stated says that the fixed retry delay is waited between the attempts.
  With three invalid responses and a delay of 5 the three calls are made and
  nothing is waited.\<close>

theorem classify_comment_invalid_no_wait:
  "calls (snd (classify_comment (\<lambda>secs. None) (\<lambda>k. Content (lit ''Invalid response''))
          (lit ''order789'') (lit ''Some comment.'') 3 5)) = 3 \<and>
   waits (snd (classify_comment (\<lambda>secs. None) (\<lambda>k. Content (lit ''Invalid response''))
          (lit ''order789'') (lit ''Some comment.'') 3 5)) = []"
  using invalid_run [of 3 "\<lambda>k. Content (lit ''Invalid response'')" "\<lambda>secs. None"
      "lit ''order789''" "lit ''Some comment.''" 5 0] invalid_response_no_match
  by (simp add: classify_comment_def)

text \<open>
  C6. When the call of an attempt raises an exception that is neither a rate
  limit nor an API error: on the final attempt \<open>None\<close> is returned at once, with
  no wait and without the terminal failure message; on any earlier attempt the
  fixed delay is waited and the next attempt follows. The delay is one that
  \<open>time.sleep\<close> accepts, so not a negative one.
\<close>

theorem classify_comment_other_exception:
  assumes "svc attempt = OtherException e" and "int attempt < max_retries"
    and "time_sleep clock retry_delay = None"
  shows "attempts clock svc order_id comment max_retries retry_delay attempt =
           (if int attempt = max_retries - 1
            then (Inr None, [Create (prompt order_id comment),
                             Log ERROR (lit ''An unexpected error occurred: '' @ e)])
            else emit [Create (prompt order_id comment),
                       Log ERROR (lit ''An unexpected error occurred: '' @ e),
                       Sleep retry_delay]
                   (attempts clock svc order_id comment max_retries retry_delay (attempt + 1)))"
proof (cases "int attempt = max_retries - 1")
  case True
  with assms show ?thesis by (simp add: attempts_other_final)
next
  case False
  with assms have "int attempt < max_retries - 1" by simp
  with assms False show ?thesis by (simp add: attempts_other_retry)
qed

theorem classify_comment_other_exception_witness:
  "fst (classify_comment (\<lambda>secs. None) (\<lambda>k. OtherException (lit ''boom'')) (lit ''order123'')
          (lit ''Some comment.'') 3 5) = Inr None \<and>
   calls (snd (classify_comment (\<lambda>secs. None) (\<lambda>k. OtherException (lit ''boom''))
          (lit ''order123'') (lit ''Some comment.'') 3 5)) = 3 \<and>
   waits (snd (classify_comment (\<lambda>secs. None) (\<lambda>k. OtherException (lit ''boom''))
          (lit ''order123'') (lit ''Some comment.'') 3 5)) = [5, 5]"
proof -
  let ?svc = "\<lambda>k::nat. OtherException (lit ''boom'')"
  let ?clock = "\<lambda>secs::int. None :: error option"
  have a: "?svc k = OtherException (lit ''boom'')" for k
    by simp
  have t: "time_sleep ?clock 5 = None"
    by (simp add: time_sleep_def)
  have final: "attempts ?clock ?svc (lit ''order123'') (lit ''Some comment.'') 3 5 (Suc (Suc 0)) =
      (Inr None, [Create (prompt (lit ''order123'') (lit ''Some comment.'')),
                  Log ERROR (lit ''An unexpected error occurred: '' @ lit ''boom'')])"
    using classify_comment_other_exception
      [OF a _ t, of "Suc (Suc 0)" 3 "lit ''order123''" "lit ''Some comment.''"]
    by simp
  have step1: "attempts ?clock ?svc (lit ''order123'') (lit ''Some comment.'') 3 5 (Suc 0) =
      emit [Create (prompt (lit ''order123'') (lit ''Some comment.'')),
            Log ERROR (lit ''An unexpected error occurred: '' @ lit ''boom''), Sleep 5]
        (attempts ?clock ?svc (lit ''order123'') (lit ''Some comment.'') 3 5 (Suc (Suc 0)))"
    using classify_comment_other_exception
      [OF a _ t, of "Suc 0" 3 "lit ''order123''" "lit ''Some comment.''"]
    by simp
  have step0: "attempts ?clock ?svc (lit ''order123'') (lit ''Some comment.'') 3 5 0 =
      emit [Create (prompt (lit ''order123'') (lit ''Some comment.'')),
            Log ERROR (lit ''An unexpected error occurred: '' @ lit ''boom''), Sleep 5]
        (attempts ?clock ?svc (lit ''order123'') (lit ''Some comment.'') 3 5 (Suc 0))"
    using classify_comment_other_exception
      [OF a _ t, of 0 3 "lit ''order123''" "lit ''Some comment.''"]
    by simp
  show ?thesis
    by (simp add: classify_comment_def step0 step1 final)
qed

text \<open>
  C10. The value returned is \<open>Resolved\<close>, \<open>Unresolved\<close> or \<open>None\<close>, never another
  string. It fails on the response \<open>unre\<close>, U+017F, \<open>olved\<close>: the string returned
  is \<open>Unre\<close>, U+017F, \<open>olved\<close>, which is none of the three.
\<close>

theorem classify_comment_returns_other_string:
  "fst (classify_comment clock (\<lambda>k. Content [117, 110, 114, 101, 383, 111, 108, 118, 101, 100])
          (lit ''order456'') (lit ''Still pending.'') 3 5) =
     Inr (Some [85, 110, 114, 101, 383, 111, 108, 118, 101, 100]) \<and>
   Some [85, 110, 114, 101, 383, 111, 108, 118, 101, 100] \<notin>
     {Some (lit ''Resolved''), Some (lit ''Unresolved''), None}"
proof -
  have s: "strip [117, 110, 114, 101, 383, 111, 108, 118, 101, 100] =
      [117, 110, 114, 101, 383, 111, 108, 118, 101, 100]"
    by (simp add: strip_def isspace_def)
  have m: "re_match [117, 110, 114, 101, 383, 111, 108, 118, 101, 100]"
    by (simp add: re_match_def alternative_def lit_Resolved lit_Unresolved literal_ignore_def
        ignorecase_fixes_def py_lower_def at_end_def)
  have c: "capitalize [117, 110, 114, 101, 383, 111, 108, 118, 101, 100] =
      [85, 110, 114, 101, 383, 111, 108, 118, 101, 100]"
    by (simp add: py_lower_def py_title_def)
  show ?thesis
    using attempts_valid [of 0 3 "\<lambda>k. Content [117, 110, 114, 101, 383, 111, 108, 118, 101, 100]"
        "[117, 110, 114, 101, 383, 111, 108, 118, 101, 100]" clock "lit ''order456''"
        "lit ''Still pending.''" 5] s m c
    by (simp add: classify_comment_def lit_Resolved lit_Unresolved)
qed

subsection \<open>Claims about the dispatcher\<close>

lemma sublist_mid: "ys = ps @ xs @ ss \<Longrightarrow> sublist xs ys"
  by (auto simp: sublist_def)

lemma path_join_plain:
  "take 1 b \<noteq> [47] \<Longrightarrow> a \<noteq> [] \<Longrightarrow> last a \<noteq> 47 \<Longrightarrow> path_join a b = a @ lit ''/'' @ b"
  by (simp add: path_join_def lit_def)

lemma take1_file_name: "take 1 order_id \<noteq> [47] \<Longrightarrow> take 1 (order_id @ lit (CHR ''_'' # s)) \<noteq> [47]"
  by (cases order_id) (simp_all add: lit_def)

text \<open>Where the paths are as the folders suggest and the scratch file can be
  written: for an \<open>order_id\<close> that does not begin with \<open>/\<close> and folders that are
  not empty and do not end with \<open>/\<close>, outcome \<open>Resolved\<close> writes
  \<open>scratch_dir/{order_id}_resolved.txt\<close> and then uploads it to
  \<open>resolved_dest/{order_id}_resolved.txt\<close>.\<close>

lemma dispatch_resolved_plain:
  assumes "take 1 order_id \<noteq> [47]"
    and "scratch_dir \<noteq> []" and "last scratch_dir \<noteq> 47"
    and "resolved_dest \<noteq> []" and "last resolved_dest \<noteq> 47"
    and "write_file (scratch_dir @ lit ''/'' @ order_id @ lit ''_resolved.txt'')
           (lit ''Order ID: '' @ order_id @ lit ''\<newline>Comment: '' @ comment @
            lit ''\<newline>Status: Resolved'') = None"
  shows "actions_handle_resolution write_file order_id (Some (lit ''Resolved'')) comment resolved_dest
             unresolved_dest scratch_dir =
           (Inr (),
            [WriteFile (scratch_dir @ lit ''/'' @ order_id @ lit ''_resolved.txt'')
               (lit ''Order ID: '' @ order_id @ lit ''\<newline>Comment: '' @ comment @
                lit ''\<newline>Status: Resolved''),
             Progress (1 / 2) (lit ''Starting Upload''),
             Upload (scratch_dir @ lit ''/'' @ order_id @ lit ''_resolved.txt'')
               (resolved_dest @ lit ''/'' @ order_id @ lit ''_resolved.txt''),
             Progress 1 (lit ''Finishing Upload'')])"
proof -
  have "take 1 (order_id @ lit ''_resolved.txt'') \<noteq> [47]"
    using assms(1) by (rule take1_file_name)
  with assms show ?thesis
    by (simp add: actions_handle_resolution_def Let_def path_join_plain)
qed

text \<open>
  C4. Outcome \<open>Resolved\<close> writes the scratch file \<open>{order_id}_resolved.txt\<close> and
  uploads it to \<open>resolved_dest/{order_id}_resolved.txt\<close>, for every \<open>order_id\<close>. For
  the order id \<open>/x\<close> the file name is absolute and \<open>os.path.join\<close> drops both
  folders: whatever the file system does, the file is written to
  \<open>/x_resolved.txt\<close>, outside the scratch directory, and uploaded to
  \<open>/x_resolved.txt\<close>, outside the resolved folder, or nothing is uploaded at all.
\<close>

theorem dispatch_absolute_order_id:
  "actions_handle_resolution write_file (lit ''/x'') (Some (lit ''Resolved'')) (lit ''Issue fixed.'')
       (lit ''resolved_folder'') (lit ''unresolved_folder'') (lit ''temp'') =
     (case write_file (lit ''/x_resolved.txt'')
             (lit ''Order ID: /x\<newline>Comment: Issue fixed.\<newline>Status: Resolved'') of
        Some raised \<Rightarrow> (Inl raised, [])
      | None \<Rightarrow>
          (Inr (),
           [WriteFile (lit ''/x_resolved.txt'')
              (lit ''Order ID: /x\<newline>Comment: Issue fixed.\<newline>Status: Resolved''),
            Progress (1 / 2) (lit ''Starting Upload''),
            Upload (lit ''/x_resolved.txt'') (lit ''/x_resolved.txt''),
            Progress 1 (lit ''Finishing Upload'')])) \<and>
   lit ''/x_resolved.txt'' \<noteq> lit ''resolved_folder'' @ lit ''/'' @ lit ''/x'' @ lit ''_resolved.txt'' \<and>
   lit ''/x_resolved.txt'' \<noteq> lit ''temp'' @ lit ''/'' @ lit ''/x'' @ lit ''_resolved.txt''"
  by (simp add: actions_handle_resolution_def path_join_def lit_def Let_def split: option.splits)

text \<open>
  C5. For a classification other than \<open>Resolved\<close> and \<open>Unresolved\<close>, \<open>None\<close>
  included, the dispatcher returns normally and its only effect is one error
  message, which names the value and the order id: no file is written and nothing
  is uploaded.
\<close>

theorem dispatch_invalid_outcome:
  assumes "classification \<noteq> Some (lit ''Resolved'')"
    and "classification \<noteq> Some (lit ''Unresolved'')"
  shows "\<exists>message.
           actions_handle_resolution write_file order_id classification comment resolved_dest
               unresolved_dest scratch_dir = (Inr (), [Log ERROR message]) \<and>
           sublist (str_value classification) message \<and> sublist order_id message"
proof -
  let ?m = "lit ''Invalid classification: '' @ str_value classification @
            lit '' for order '' @ order_id"
  have "sublist (str_value classification) ?m"
    by (rule sublist_mid [of _ "lit ''Invalid classification: ''" _ "lit '' for order '' @ order_id"])
      simp
  moreover have "sublist order_id ?m"
    by (rule sublist_mid [of _ "lit ''Invalid classification: '' @ str_value classification @
          lit '' for order ''" _ "[]"]) simp
  moreover have "actions_handle_resolution write_file order_id classification comment resolved_dest
               unresolved_dest scratch_dir = (Inr (), [Log ERROR ?m])"
    using assms by (simp add: actions_handle_resolution_def)
  ultimately show ?thesis by blast
qed

theorem dispatch_invalid_outcome_witness:
  "actions_handle_resolution (\<lambda>path content. None) (lit ''order789'') (Some (lit ''Invalid''))
       (lit ''Some comment.'') (lit ''resolved'') (lit ''unresolved'') (lit ''temp'') =
     (Inr (), [Log ERROR (lit ''Invalid classification: Invalid for order order789'')]) \<and>
   actions_handle_resolution (\<lambda>path content. None) (lit ''order789'') None (lit ''Some comment.'')
       (lit ''resolved'') (lit ''unresolved'') (lit ''temp'') =
     (Inr (), [Log ERROR (lit ''Invalid classification: None for order order789'')])"
proof -
  let ?w = "\<lambda>(path::pystr) (content::pystr). None :: error option"
  have h: "Some (lit ''Invalid'') \<noteq> Some (lit ''Resolved'')"
    "Some (lit ''Invalid'') \<noteq> Some (lit ''Unresolved'')"
    by (simp_all add: lit_def)
  from dispatch_invalid_outcome [OF h, of ?w "lit ''order789''" "lit ''Some comment.''"
      "lit ''resolved''" "lit ''unresolved''" "lit ''temp''"]
  obtain m where m: "actions_handle_resolution ?w (lit ''order789'') (Some (lit ''Invalid''))
      (lit ''Some comment.'') (lit ''resolved'') (lit ''unresolved'') (lit ''temp'') =
      (Inr (), [Log ERROR m])"
    by blast
  from dispatch_invalid_outcome [of None ?w "lit ''order789''" "lit ''Some comment.''"
      "lit ''resolved''" "lit ''unresolved''" "lit ''temp''"]
  obtain n where n: "actions_handle_resolution ?w (lit ''order789'') None
      (lit ''Some comment.'') (lit ''resolved'') (lit ''unresolved'') (lit ''temp'') =
      (Inr (), [Log ERROR n])"
    by blast
  have "m = lit ''Invalid classification: Invalid for order order789''"
    using m h by (simp add: actions_handle_resolution_def) (simp add: lit_def)
  moreover have "n = lit ''Invalid classification: None for order order789''"
    using n by (simp add: actions_handle_resolution_def) (simp add: lit_def)
  ultimately show ?thesis
    using m n by simp
qed

subsection \<open>The orchestrator loop\<close>

lemma fractions_append [simp]: "fractions (es @ fs) = fractions es @ fractions fs"
  by (induction es rule: fractions.induct) simp_all

lemma reports_append [simp]: "reports (es @ fs) = reports es @ reports fs"
  by (simp add: reports_def)

lemma fractions_classify [simp]:
  "fractions (snd (classify_comment clock svc order_id comment max_retries retry_delay)) = []"
  by (simp add: classify_comment_def)

lemma reports_classify [simp]:
  "reports (snd (classify_comment clock svc order_id comment max_retries retry_delay)) = []"
  by (simp add: classify_comment_def reports_def)

lemma reports_dispatch [simp]:
  "reports (snd (actions_handle_resolution write_file order_id classification comment resolved_dest
      unresolved_dest scratch_dir)) = []"
  by (simp add: actions_handle_resolution_def reports_def Let_def lit_def split: option.splits)

lemma fractions_dispatch:
  "fst (actions_handle_resolution write_file order_id classification comment resolved_dest
      unresolved_dest scratch_dir) = Inr done \<Longrightarrow>
   fractions (snd (actions_handle_resolution write_file order_id classification comment resolved_dest
      unresolved_dest scratch_dir)) =
     (if classification \<in> {Some (lit ''Resolved''), Some (lit ''Unresolved'')}
      then [1 / 2, 1] else [])"
  by (auto simp: actions_handle_resolution_def Let_def split: option.splits if_splits)

lemma fractions_identify_patterns [simp]:
  "fractions (snd (identify_patterns encode fit_predict df n_clusters)) = []"
  by (simp add: identify_patterns_def Let_def split: sum.splits)

lemma reports_identify_patterns [simp]:
  "reports (snd (identify_patterns encode fit_predict df n_clusters)) = []"
  by (simp add: identify_patterns_def reports_def Let_def split: sum.splits)

text \<open>One pass of the loop that is not left by an exception.\<close>

lemma loop_from_Cons_Inr:
  assumes "fst (loop_from env cfg total_comments position ((index, order_id, comment) # rest)) =
             Inr processed_data"
  obtains classification later where
    "fst (classify_comment (env_clock env) (env_completion env position) order_id comment 3 5) =
       Inr classification"
    "fst (loop_from env cfg total_comments (Suc position) rest) = Inr later"
    "classification = None \<Longrightarrow> processed_data = later \<and>
       snd (loop_from env cfg total_comments position ((index, order_id, comment) # rest)) =
         Progress (of_int index / of_nat total_comments)
           (lit ''Processing Resolution: '' @ str_int (index + 1) @ lit '' / '' @
            str_nat total_comments) #
         snd (classify_comment (env_clock env) (env_completion env position) order_id comment 3 5) @
         snd (loop_from env cfg total_comments (Suc position) rest)"
    "\<And>status. classification = Some status \<Longrightarrow>
       processed_data = [lit ''order_id'' \<mapsto> Str order_id, lit ''comment'' \<mapsto> Str comment,
                         lit ''status'' \<mapsto> Str status] # later \<and>
       snd (loop_from env cfg total_comments position ((index, order_id, comment) # rest)) =
         Progress (of_int index / of_nat total_comments)
           (lit ''Processing Resolution: '' @ str_int (index + 1) @ lit '' / '' @
            str_nat total_comments) #
         snd (classify_comment (env_clock env) (env_completion env position) order_id comment 3 5) @
         snd (actions_handle_resolution (env_write env) order_id (Some status) comment
                (gcs_resolved_folder cfg) (gcs_unresolved_folder cfg) (local_temp_dir cfg)) @
         snd (loop_from env cfg total_comments (Suc position) rest)"
proof -
  let ?result = "classify_comment (env_clock env) (env_completion env position) order_id comment 3 5"
  let ?later = "loop_from env cfg total_comments (Suc position) rest"
  from assms obtain classification where c: "fst ?result = Inr classification"
    by (cases "fst ?result") (simp_all add: Let_def)
  show thesis
  proof (cases classification)
    case None
    with assms c have l: "fst ?later = Inr processed_data"
      by (simp add: Let_def)
    show ?thesis
      by (rule that [OF c l]) (use None c in \<open>simp_all add: Let_def\<close>)
  next
    case (Some status)
    with c have ne: "status \<noteq> []"
      using classify_comment_label_not_empty by blast
    let ?action = "actions_handle_resolution (env_write env) order_id (Some status) comment
        (gcs_resolved_folder cfg) (gcs_unresolved_folder cfg) (local_temp_dir cfg)"
    from assms c Some ne obtain u where a: "fst ?action = Inr u"
      by (cases "fst ?action") (simp_all add: Let_def)
    from assms c Some ne a obtain later where l: "fst ?later = Inr later"
      by (cases "fst ?later") (simp_all add: Let_def)
    show ?thesis
      by (rule that [OF c l]) (use assms Some c ne a l in \<open>simp_all add: Let_def result_row_def\<close>)
  qed
qed

text \<open>A loop that is not left by an exception: its rows and its effects, record
  by record.\<close>

lemma loop_from_Inr:
  assumes "fst (loop_from env cfg total_comments position comments_df) = Inr processed_data"
  shows "processed_data =
           List.map_filter
             (\<lambda>(position, index, order_id, comment).
                case fst (classify_comment (env_clock env) (env_completion env position)
                            order_id comment 3 5) of
                  Inr (Some status) \<Rightarrow>
                    Some [lit ''order_id'' \<mapsto> Str order_id, lit ''comment'' \<mapsto> Str comment,
                          lit ''status'' \<mapsto> Str status]
                | _ \<Rightarrow> None)
             (enumerate position comments_df) \<and>
         snd (loop_from env cfg total_comments position comments_df) =
           concat (map
             (\<lambda>(position, index, order_id, comment).
                Progress (of_int index / of_nat total_comments)
                  (lit ''Processing Resolution: '' @ str_int (index + 1) @ lit '' / '' @
                   str_nat total_comments) #
                snd (classify_comment (env_clock env) (env_completion env position)
                       order_id comment 3 5) @
                (case fst (classify_comment (env_clock env) (env_completion env position)
                             order_id comment 3 5) of
                   Inr (Some status) \<Rightarrow>
                     snd (actions_handle_resolution (env_write env) order_id (Some status) comment
                            (gcs_resolved_folder cfg) (gcs_unresolved_folder cfg)
                            (local_temp_dir cfg))
                 | _ \<Rightarrow> []))
             (enumerate position comments_df))"
  using assms
proof (induction comments_df arbitrary: position processed_data)
  case Nil
  then show ?case by (simp add: List.map_filter_simps)
next
  case (Cons entry rest)
  obtain index order_id comment where entry: "entry = (index, order_id, comment)"
    by (cases entry)
  from Cons.prems [unfolded entry]
  show ?case
  proof (rule loop_from_Cons_Inr)
    fix classification later
    assume c: "fst (classify_comment (env_clock env) (env_completion env position)
          order_id comment 3 5) = Inr classification"
      and l: "fst (loop_from env cfg total_comments (Suc position) rest) = Inr later"
      and n: "classification = None \<Longrightarrow> processed_data = later \<and>
         snd (loop_from env cfg total_comments position ((index, order_id, comment) # rest)) =
           Progress (of_int index / of_nat total_comments)
             (lit ''Processing Resolution: '' @ str_int (index + 1) @ lit '' / '' @
              str_nat total_comments) #
           snd (classify_comment (env_clock env) (env_completion env position) order_id comment 3 5) @
           snd (loop_from env cfg total_comments (Suc position) rest)"
      and s: "\<And>status. classification = Some status \<Longrightarrow>
         processed_data = [lit ''order_id'' \<mapsto> Str order_id, lit ''comment'' \<mapsto> Str comment,
                           lit ''status'' \<mapsto> Str status] # later \<and>
         snd (loop_from env cfg total_comments position ((index, order_id, comment) # rest)) =
           Progress (of_int index / of_nat total_comments)
             (lit ''Processing Resolution: '' @ str_int (index + 1) @ lit '' / '' @
              str_nat total_comments) #
           snd (classify_comment (env_clock env) (env_completion env position) order_id comment 3 5) @
           snd (actions_handle_resolution (env_write env) order_id (Some status) comment
                  (gcs_resolved_folder cfg) (gcs_unresolved_folder cfg) (local_temp_dir cfg)) @
           snd (loop_from env cfg total_comments (Suc position) rest)"
    note ih = Cons.IH [OF l]
    show ?thesis
    proof (cases classification)
      case None
      with n c ih show ?thesis
        by (simp add: entry List.map_filter_simps del: loop_from.simps)
    next
      case (Some status)
      with s [OF Some] c ih show ?thesis
        by (simp add: entry List.map_filter_simps del: loop_from.simps)
    qed
  qed
qed

subsection \<open>Runs of the orchestrator\<close>

text \<open>A run that returns a table went through every step of the body.\<close>

lemma handle_resolution_Some:
  assumes "fst (handle_resolution env cfg (Some comments_df)) = (Some table, patterns, message)"
  obtains processed_data where
    "fst (loop_from env cfg (length comments_df) 0 comments_df) = Inr processed_data"
    "table = \<lparr>columns = [lit ''order_id'', lit ''comment'', lit ''status''],
              rows = processed_data\<rparr>"
    "snd (handle_resolution env cfg (Some comments_df)) =
       Progress 0 (lit ''Starting Resolution'') #
       snd (loop_from env cfg (length comments_df) 0 comments_df) @
       snd (identify_patterns (env_encode env) (env_fit_predict env)
              (table\<lparr>rows := filter (\<lambda>r. r (lit ''status'') = Some (Str (lit ''Resolved'')))
                                 (rows table)\<rparr>)
              (num_clusters cfg)) @
       [Purge (local_temp_dir cfg), Log INFO (lit ''Resolution handling complete.''),
        Progress 1 (lit ''Finishing Resolution'')]"
proof -
  let ?looped = "loop_from env cfg (length comments_df) 0 comments_df"
  from assms have ne: "comments_df \<noteq> []"
    by (auto simp: handle_resolution_def)
  from assms ne obtain t p where steps: "fst (resolution_steps env cfg comments_df) = Inr (t, p)"
    by (cases "fst (resolution_steps env cfg comments_df)")
      (auto simp: handle_resolution_def Let_def)
  with assms ne have t: "t = table"
    and trace: "snd (handle_resolution env cfg (Some comments_df)) =
      snd (resolution_steps env cfg comments_df)"
    by (auto simp: handle_resolution_def Let_def)
  from steps have configured: "env_setup env = None"
    by (cases "env_setup env") (auto simp: resolution_steps_def Let_def)
  from steps configured obtain processed_data where l: "fst ?looped = Inr processed_data"
    by (cases "fst ?looped") (auto simp: resolution_steps_def Let_def)
  from steps configured l obtain resolved where
    r: "select_resolved (data_frame processed_data) = Inr resolved"
    by (cases "select_resolved (data_frame processed_data)")
      (auto simp: resolution_steps_def Let_def)
  then have pne: "processed_data \<noteq> []"
    by (auto simp: select_resolved_def data_frame_def empty_frame_def split: if_splits)
  then have df: "data_frame processed_data =
      \<lparr>columns = [lit ''order_id'', lit ''comment'', lit ''status''], rows = processed_data\<rparr>"
    by (simp add: data_frame_def)
  with r have resolved: "resolved = (data_frame processed_data)
      \<lparr>rows := filter (\<lambda>r. r (lit ''status'') = Some (Str (lit ''Resolved''))) processed_data\<rparr>"
    by (auto simp: select_resolved_def split: if_splits)
  let ?analysed = "identify_patterns (env_encode env) (env_fit_predict env) resolved
      (num_clusters cfg)"
  from steps configured l r obtain out where a: "fst ?analysed = Inr out"
    by (cases "fst ?analysed") (auto simp: resolution_steps_def Let_def)
  from steps configured l r a have purge: "env_purge env (local_temp_dir cfg) = None"
    by (cases "env_purge env (local_temp_dir cfg)") (auto simp: resolution_steps_def Let_def)
  from steps configured l r a purge have td: "t = data_frame processed_data"
    and st: "snd (resolution_steps env cfg comments_df) =
      Progress 0 (lit ''Starting Resolution'') # snd ?looped @ snd ?analysed @
      [Purge (local_temp_dir cfg), Log INFO (lit ''Resolution handling complete.''),
       Progress 1 (lit ''Finishing Resolution'')]"
    by (auto simp: resolution_steps_def Let_def)
  from t td df have tb: "table =
      \<lparr>columns = [lit ''order_id'', lit ''comment'', lit ''status''], rows = processed_data\<rparr>"
    by simp
  then have rt: "rows table = processed_data"
    by simp
  from resolved have rs: "resolved =
      table\<lparr>rows := filter (\<lambda>r. r (lit ''status'') = Some (Str (lit ''Resolved'')))
                         (rows table)\<rparr>"
    unfolding df tb by simp
  show thesis
    by (rule that [OF l tb]) (simp only: trace st rs)
qed

text \<open>
  C3 (as amended). Whenever \<open>handle_resolution\<close> returns a result table, that
  table has exactly one row \<open>{order_id, comment, status}\<close> for each record whose
  classification is not \<open>None\<close>, in the order of the records, and the effects of
  the run are, record by record, the report, the effects of the classifier and,
  only for a record that was classified, those of the dispatcher: a record whose
  classification is \<open>None\<close> adds no row and is not dispatched. (No table is
  returned when a step of the run raises.)
\<close>

theorem handle_resolution_table:
  assumes "fst (handle_resolution env cfg (Some comments_df)) = (Some table, patterns, message)"
  shows "table =
           \<lparr>columns = [lit ''order_id'', lit ''comment'', lit ''status''],
            rows = List.map_filter
              (\<lambda>(position, index, order_id, comment).
                 case fst (classify_comment (env_clock env) (env_completion env position)
                             order_id comment 3 5) of
                   Inr (Some status) \<Rightarrow>
                     Some [lit ''order_id'' \<mapsto> Str order_id, lit ''comment'' \<mapsto> Str comment,
                           lit ''status'' \<mapsto> Str status]
                 | _ \<Rightarrow> None)
              (enumerate 0 comments_df)\<rparr> \<and>
         snd (handle_resolution env cfg (Some comments_df)) =
           Progress 0 (lit ''Starting Resolution'') #
           concat (map
             (\<lambda>(position, index, order_id, comment).
                Progress (of_int index / of_nat (length comments_df))
                  (lit ''Processing Resolution: '' @ str_int (index + 1) @ lit '' / '' @
                   str_nat (length comments_df)) #
                snd (classify_comment (env_clock env) (env_completion env position)
                       order_id comment 3 5) @
                (case fst (classify_comment (env_clock env) (env_completion env position)
                             order_id comment 3 5) of
                   Inr (Some status) \<Rightarrow>
                     snd (actions_handle_resolution (env_write env) order_id (Some status) comment
                            (gcs_resolved_folder cfg) (gcs_unresolved_folder cfg)
                            (local_temp_dir cfg))
                 | _ \<Rightarrow> []))
             (enumerate 0 comments_df)) @
           snd (identify_patterns (env_encode env) (env_fit_predict env)
                  (table\<lparr>rows := filter (\<lambda>r. r (lit ''status'') = Some (Str (lit ''Resolved'')))
                                     (rows table)\<rparr>)
                  (num_clusters cfg)) @
           [Purge (local_temp_dir cfg), Log INFO (lit ''Resolution handling complete.''),
            Progress 1 (lit ''Finishing Resolution'')]"
  using assms
proof (rule handle_resolution_Some)
  fix processed_data
  assume l: "fst (loop_from env cfg (length comments_df) 0 comments_df) = Inr processed_data"
    and t: "table = \<lparr>columns = [lit ''order_id'', lit ''comment'', lit ''status''],
              rows = processed_data\<rparr>"
    and e: "snd (handle_resolution env cfg (Some comments_df)) =
       Progress 0 (lit ''Starting Resolution'') #
       snd (loop_from env cfg (length comments_df) 0 comments_df) @
       snd (identify_patterns (env_encode env) (env_fit_predict env)
              (table\<lparr>rows := filter (\<lambda>r. r (lit ''status'') = Some (Str (lit ''Resolved'')))
                                 (rows table)\<rparr>)
              (num_clusters cfg)) @
       [Purge (local_temp_dir cfg), Log INFO (lit ''Resolution handling complete.''),
        Progress 1 (lit ''Finishing Resolution'')]"
  from loop_from_Inr [OF l] t e show ?thesis
    by simp
qed

lemma classify_resolved:
  "classify_comment clock (\<lambda>k. Content (lit ''Resolved'')) order_id comment 3 5 =
     (Inr (Some (lit ''Resolved'')), [Create (prompt order_id comment)])"
proof -
  have s: "strip (lit ''Resolved'') = lit ''Resolved''"
    by (simp add: strip_def isspace_def lit_def)
  show ?thesis
    using classify_comment_ascii_casing(1)
      [of 3 "\<lambda>k. Content (lit ''Resolved'')" "lit ''Resolved''" clock order_id comment 5]
    by (simp add: s lower_Resolved)
qed

lemma classify_invalid:
  "fst (classify_comment clock (\<lambda>k. Content (lit ''Invalid response'')) order_id comment 3 5) =
     Inr None"
  using invalid_run [of 3 "\<lambda>k. Content (lit ''Invalid response'')" clock order_id comment 5 0]
    invalid_response_no_match
  by (simp add: classify_comment_def)

lemma column_names_distinct:
  "lit ''order_id'' \<noteq> lit ''comment''" "lit ''order_id'' \<noteq> lit ''status''"
  "lit ''comment'' \<noteq> lit ''status''" "lit ''comment'' \<noteq> lit ''order_id''"
  "lit ''status'' \<noteq> lit ''order_id''" "lit ''status'' \<noteq> lit ''comment''"
  "lit ''Resolved'' \<noteq> []" "lit ''Unresolved'' \<noteq> lit ''Resolved''"
  by (simp_all add: lit_def)


text \<open>What makes a run return its tables.\<close>

lemma handle_resolution_completes:
  assumes "comments_df \<noteq> []" and "env_setup env = None"
    and "fst (loop_from env cfg (length comments_df) 0 comments_df) = Inr processed_data"
    and "processed_data \<noteq> []"
    and "fst (identify_patterns (env_encode env) (env_fit_predict env)
           \<lparr>columns = [lit ''order_id'', lit ''comment'', lit ''status''],
            rows = filter (\<lambda>r. r (lit ''status'') = Some (Str (lit ''Resolved''))) processed_data\<rparr>
           (num_clusters cfg)) = Inr out"
    and "env_purge env (local_temp_dir cfg) = None"
  shows "fst (handle_resolution env cfg (Some comments_df)) =
           (Some \<lparr>columns = [lit ''order_id'', lit ''comment'', lit ''status''],
                  rows = processed_data\<rparr>,
            Some out, lit ''Resolution handling complete.'')"
proof -
  have "fst (resolution_steps env cfg comments_df) =
      Inr (\<lparr>columns = [lit ''order_id'', lit ''comment'', lit ''status''],
             rows = processed_data\<rparr>, out)"
    using assms(2-6)
    by (simp add: resolution_steps_def Let_def data_frame_def select_resolved_def)
  with assms(1) show ?thesis
    by (simp add: handle_resolution_def Let_def)
qed


theorem handle_resolution_table_witness:
  "\<exists>table patterns message.
     fst (handle_resolution
            (quiet_environment
               (\<lambda>position k. if position = 0 then Content (lit ''Resolved'')
                               else Content (lit ''Invalid response''))
               (\<lambda>path content. None))
            (default_config 1)
            (Some [(0, lit ''order1'', lit ''Issue fixed.''),
                   (1, lit ''order2'', lit ''Still pending.'')])) =
       (Some table, patterns, message) \<and>
     rows table =
       [[lit ''order_id'' \<mapsto> Str (lit ''order1''), lit ''comment'' \<mapsto> Str (lit ''Issue fixed.''),
         lit ''status'' \<mapsto> Str (lit ''Resolved'')]]"
proof -
  let ?env = "quiet_environment
      (\<lambda>position k. if position = 0 then Content (lit ''Resolved'')
                      else Content (lit ''Invalid response''))
      (\<lambda>path content. None)"
  let ?cfg = "default_config 1"
  let ?records = "[(0::int, lit ''order1'', lit ''Issue fixed.''),
      (1, lit ''order2'', lit ''Still pending.'')]"
  let ?row = "[lit ''order_id'' \<mapsto> Str (lit ''order1''), lit ''comment'' \<mapsto> Str (lit ''Issue fixed.''),
      lit ''status'' \<mapsto> Str (lit ''Resolved'')]"
  let ?frame = "\<lparr>columns = [lit ''order_id'', lit ''comment'', lit ''status''], rows = [?row]\<rparr>"
  have c0: "env_completion ?env 0 = (\<lambda>k. Content (lit ''Resolved''))"
    and c1: "env_completion ?env (Suc 0) = (\<lambda>k. Content (lit ''Invalid response''))"
    by (simp_all add: quiet_environment_def)
  have d: "fst (actions_handle_resolution (env_write ?env) order_id classification comment
      resolved_dest unresolved_dest scratch_dir) = Inr ()" for order_id classification comment
      resolved_dest unresolved_dest scratch_dir
    by (simp add: actions_handle_resolution_def quiet_environment_def Let_def)
  have l: "fst (loop_from ?env ?cfg (length ?records) 0 ?records) = Inr [?row]"
    by (simp add: Let_def c0 c1 classify_resolved classify_invalid d column_names_distinct
        result_row_def)
  have p: "present ?row"
    by (simp add: present_def column_names_distinct)
  have "\<exists>out. fst (identify_patterns position_encode single_cluster ?frame 1) = Inr out"
    using p by (simp add: identify_patterns_def is_empty_def dropna_comment_def Let_def
        position_encode_def single_cluster_def set_cluster_def column_names_distinct
        del: fun_upd_apply)
  then obtain out where a: "fst (identify_patterns position_encode single_cluster ?frame 1) = Inr out"
    by blast
  have f: "filter (\<lambda>r. r (lit ''status'') = Some (Str (lit ''Resolved''))) [?row] = [?row]"
    by simp
  have e: "env_setup ?env = None" "env_purge ?env (local_temp_dir ?cfg) = None"
    "env_encode ?env = position_encode" "env_fit_predict ?env = single_cluster"
    "num_clusters ?cfg = 1"
    by (simp_all add: quiet_environment_def default_config_def)
  have h: "fst (handle_resolution ?env ?cfg (Some ?records)) =
      (Some ?frame, Some out, lit ''Resolution handling complete.'')"
    by (rule handle_resolution_completes [OF _ e(1) l _ _ e(2)])
      (simp_all only: f e a list.distinct not_False_eq_True)
  from handle_resolution_table [OF h] have "rows ?frame =
      rows \<lparr>columns = [lit ''order_id'', lit ''comment'', lit ''status''],
            rows = List.map_filter
              (\<lambda>(position, index, order_id, comment).
                 case fst (classify_comment (env_clock ?env) (env_completion ?env position)
                             order_id comment 3 5) of
                   Inr (Some status) \<Rightarrow>
                     Some [lit ''order_id'' \<mapsto> Str order_id, lit ''comment'' \<mapsto> Str comment,
                           lit ''status'' \<mapsto> Str status]
                 | _ \<Rightarrow> None)
              (enumerate 0 ?records)\<rparr>"
    by (rule conjunct1 [THEN arg_cong])
  then have "rows ?frame = [?row]"
    by (simp only: dataframe.select_convs)
  with h show ?thesis
    by blast
qed

lemma handle_resolution_loop_raises:
  assumes "comments_df \<noteq> []" and "env_setup env = None"
    and "fst (loop_from env cfg (length comments_df) 0 comments_df) = Inl raised"
  shows "fst (handle_resolution env cfg (Some comments_df)) = (None, None, str_error raised)"
proof -
  have "fst (resolution_steps env cfg comments_df) = Inl raised"
    using assms(2,3) by (simp add: resolution_steps_def Let_def)
  with assms(1) show ?thesis
    by (simp add: handle_resolution_def Let_def)
qed

text \<open>C3 as stated holds for every sequence of records. Here both records are
  classified \<open>Resolved\<close>, but the scratch file of the first, \<open>temp/a/b_resolved.txt\<close>,
  cannot be opened (there is no directory \<open>temp/a\<close>): the exception ends the loop
  and no table is returned, where the claim expects two rows.\<close>

theorem handle_resolution_no_table:
  "fst (classify_comment (\<lambda>secs. None) (\<lambda>k. Content (lit ''Resolved''))
          (lit ''a/b'') (lit ''Issue fixed.'') 3 5) = Inr (Some (lit ''Resolved'')) \<and>
   fst (handle_resolution
          (quiet_environment (\<lambda>position k. Content (lit ''Resolved''))
             (\<lambda>path content.
                if path = lit ''temp/a/b_resolved.txt''
                then Some (OSError (lit ''[Errno 2] No such file or directory: '' @ [39] @ path @ [39]))
                else None))
          (default_config 3)
          (Some [(0, lit ''a/b'', lit ''Issue fixed.''),
                 (1, lit ''order2'', lit ''Refund issued.'')])) =
     (None, None,
      lit ''[Errno 2] No such file or directory: '' @ [39] @ lit ''temp/a/b_resolved.txt'' @ [39])"
proof -
  let ?refusing = "\<lambda>path content.
      if path = lit ''temp/a/b_resolved.txt''
      then Some (OSError (lit ''[Errno 2] No such file or directory: '' @ [39] @ path @ [39]))
      else None"
  let ?env = "quiet_environment (\<lambda>position k. Content (lit ''Resolved'')) ?refusing"
  let ?cfg = "default_config 3"
  let ?records = "[(0::int, lit ''a/b'', lit ''Issue fixed.''),
      (1, lit ''order2'', lit ''Refund issued.'')]"
  let ?raised = "OSError (lit ''[Errno 2] No such file or directory: '' @ [39] @
      lit ''temp/a/b_resolved.txt'' @ [39])"
  have c: "env_completion ?env position = (\<lambda>k. Content (lit ''Resolved''))" for position
    by (simp add: quiet_environment_def)
  have e: "env_setup ?env = None"
    by (simp add: quiet_environment_def)
  have p: "path_join (lit ''temp'') (lit ''a/b'' @ lit ''_resolved.txt'') =
      lit ''temp/a/b_resolved.txt''"
    by (simp add: path_join_def lit_def)
  have d: "actions_handle_resolution (env_write ?env) (lit ''a/b'') (Some (lit ''Resolved''))
      comment (gcs_resolved_folder ?cfg) (gcs_unresolved_folder ?cfg) (local_temp_dir ?cfg) =
      (Inl ?raised, [])" for comment
    by (simp add: actions_handle_resolution_def Let_def quiet_environment_def default_config_def p)
  have l: "fst (loop_from ?env ?cfg (length ?records) 0 ?records) = Inl ?raised"
    by (simp add: Let_def c classify_resolved d column_names_distinct)
  have "fst (handle_resolution ?env ?cfg (Some ?records)) = (None, None, str_error ?raised)"
    by (rule handle_resolution_loop_raises [OF _ e l]) simp
  then show ?thesis
    by (simp add: classify_resolved)
qed

lemma reports_report [simp]:
  "reports (Progress f (lit ''Processing Resolution: '' @ d) # es) = f # reports es"
  by (simp add: reports_def)

lemma reports_start [simp]: "reports (Progress 0 (lit ''Starting Resolution'') # es) = reports es"
  by (simp add: reports_def lit_def)

lemma reports_finish [simp]:
  "reports [Purge dir, Log INFO m, Progress 1 (lit ''Finishing Resolution'')] = []"
  by (simp add: reports_def lit_def)

lemma reports_loop_effects:
  "reports (concat (map
     (\<lambda>(position, index, order_id, comment).
        Progress (of_int index / of_nat total_comments)
          (lit ''Processing Resolution: '' @ str_int (index + 1) @ lit '' / '' @
           str_nat total_comments) #
        snd (classify_comment clock (completion position) order_id comment 3 5) @
        (case fst (classify_comment clock (completion position) order_id comment 3 5) of
           Inr (Some status) \<Rightarrow>
             snd (actions_handle_resolution write_file order_id (Some status) comment
                    resolved_dest unresolved_dest scratch_dir)
         | _ \<Rightarrow> []))
     entries)) =
   map (\<lambda>(position, index, order_id, comment). of_int index / of_nat total_comments) entries"
proof (induction entries)
  case Nil
  then show ?case by (simp add: reports_def)
next
  case (Cons entry entries)
  obtain position index order_id comment where "entry = (position, index, order_id, comment)"
    by (cases entry)
  with Cons.IH show ?case
    by (simp split: sum.splits option.splits) (simp add: reports_def)
qed

lemma default_index:
  assumes "map fst comments_df = map int [0..<length comments_df]"
    and "(position, index, order_id, comment) \<in> set (enumerate 0 comments_df)"
  shows "index = int position"
proof -
  from assms(2) have p: "position < length comments_df"
    and e: "comments_df ! position = (index, order_id, comment)"
    by (auto simp: in_set_enumerate_eq)
  from p have "map fst comments_df ! position = fst (comments_df ! position)"
    by simp
  with assms(1) p e show ?thesis
    by simp
qed

lemma fractions_increasing:
  "sorted_wrt (<) (map (\<lambda>i. (of_nat i :: rat) / of_nat total_comments) [0..<total_comments])"
proof -
  have "sorted_wrt (\<lambda>i j. (of_nat i :: rat) / of_nat total_comments < of_nat j / of_nat total_comments)
      [0..<total_comments]"
  proof (rule sorted_wrt_mono_rel [of _ "(<)"])
    fix i j assume "i \<in> set [0..<total_comments]" "j \<in> set [0..<total_comments]" "i < j"
    then show "(of_nat i :: rat) / of_nat total_comments < of_nat j / of_nat total_comments"
      by (simp add: divide_strict_right_mono)
  next
    show "sorted_wrt (<) [0..<total_comments]"
      by (simp add: sorted_wrt_upt)
  qed
  then show ?thesis
    by (simp add: sorted_wrt_map)
qed

lemma str_int_Suc: "str_int (int position + 1) = str_nat (position + 1)"
  by (simp add: str_int_def nat_add_distrib)

text \<open>
  C9 (as amended). In a run that returns its tables, over \<open>n\<close> records whose index
  is the default \<open>0, ..., n - 1\<close>: the first effect of each record is the loop's
  report of the fraction processed/total, where processed is the number of
  records handled before; then come the effects of the classifier and of the
  dispatcher for that record. So the loop reports once per record, and its
  reports increase strictly. (The dispatcher reports \<open>0.5\<close> and \<open>1\<close> to the same
  indicator for every record it stores, which the amended claim leaves out.)
\<close>

theorem handle_resolution_reports:
  assumes "fst (handle_resolution env cfg (Some comments_df)) = (Some table, patterns, message)"
    and "map fst comments_df = map int [0..<length comments_df]"
  shows "snd (handle_resolution env cfg (Some comments_df)) =
           Progress 0 (lit ''Starting Resolution'') #
           concat (map
             (\<lambda>(processed, index, order_id, comment).
                Progress (of_nat processed / of_nat (length comments_df))
                  (lit ''Processing Resolution: '' @ str_nat (processed + 1) @ lit '' / '' @
                   str_nat (length comments_df)) #
                snd (classify_comment (env_clock env) (env_completion env processed)
                       order_id comment 3 5) @
                (case fst (classify_comment (env_clock env) (env_completion env processed)
                             order_id comment 3 5) of
                   Inr (Some status) \<Rightarrow>
                     snd (actions_handle_resolution (env_write env) order_id (Some status) comment
                            (gcs_resolved_folder cfg) (gcs_unresolved_folder cfg)
                            (local_temp_dir cfg))
                 | _ \<Rightarrow> []))
             (enumerate 0 comments_df)) @
           snd (identify_patterns (env_encode env) (env_fit_predict env)
                  (table\<lparr>rows := filter (\<lambda>r. r (lit ''status'') = Some (Str (lit ''Resolved'')))
                                     (rows table)\<rparr>)
                  (num_clusters cfg)) @
           [Purge (local_temp_dir cfg), Log INFO (lit ''Resolution handling complete.''),
            Progress 1 (lit ''Finishing Resolution'')] \<and>
         reports (snd (handle_resolution env cfg (Some comments_df))) =
           map (\<lambda>processed. of_nat processed / of_nat (length comments_df))
             [0..<length comments_df] \<and>
         sorted_wrt (<) (reports (snd (handle_resolution env cfg (Some comments_df))))"
  using assms(1)
proof (rule handle_resolution_Some)
  fix processed_data
  assume l: "fst (loop_from env cfg (length comments_df) 0 comments_df) = Inr processed_data"
    and e: "snd (handle_resolution env cfg (Some comments_df)) =
       Progress 0 (lit ''Starting Resolution'') #
       snd (loop_from env cfg (length comments_df) 0 comments_df) @
       snd (identify_patterns (env_encode env) (env_fit_predict env)
              (table\<lparr>rows := filter (\<lambda>r. r (lit ''status'') = Some (Str (lit ''Resolved'')))
                                 (rows table)\<rparr>)
              (num_clusters cfg)) @
       [Purge (local_temp_dir cfg), Log INFO (lit ''Resolution handling complete.''),
        Progress 1 (lit ''Finishing Resolution'')]"
  let ?by_index = "\<lambda>(position, index, order_id, comment).
      Progress (of_int index / of_nat (length comments_df))
        (lit ''Processing Resolution: '' @ str_int (index + 1) @ lit '' / '' @
         str_nat (length comments_df)) #
      snd (classify_comment (env_clock env) (env_completion env position) order_id comment 3 5) @
      (case fst (classify_comment (env_clock env) (env_completion env position)
                   order_id comment 3 5) of
         Inr (Some status) \<Rightarrow>
           snd (actions_handle_resolution (env_write env) order_id (Some status) comment
                  (gcs_resolved_folder cfg) (gcs_unresolved_folder cfg) (local_temp_dir cfg))
       | _ \<Rightarrow> [])"
  let ?by_count = "\<lambda>(processed, index::int, order_id, comment).
      Progress (of_nat processed / of_nat (length comments_df))
        (lit ''Processing Resolution: '' @ str_nat (processed + 1) @ lit '' / '' @
         str_nat (length comments_df)) #
      snd (classify_comment (env_clock env) (env_completion env processed) order_id comment 3 5) @
      (case fst (classify_comment (env_clock env) (env_completion env processed)
                   order_id comment 3 5) of
         Inr (Some status) \<Rightarrow>
           snd (actions_handle_resolution (env_write env) order_id (Some status) comment
                  (gcs_resolved_folder cfg) (gcs_unresolved_folder cfg) (local_temp_dir cfg))
       | _ \<Rightarrow> [])"
  have same: "map ?by_index (enumerate 0 comments_df) = map ?by_count (enumerate 0 comments_df)"
  proof (rule map_cong [OF refl])
    fix entry assume m: "entry \<in> set (enumerate 0 comments_df)"
    obtain position index order_id comment where
      entry: "entry = (position, index, order_id, comment)"
      by (cases entry)
    with m default_index [OF assms(2)] have "index = int position"
      by blast
    then show "?by_index entry = ?by_count entry"
      by (simp add: entry str_int_Suc)
  qed
  have loop: "snd (loop_from env cfg (length comments_df) 0 comments_df) =
      concat (map ?by_index (enumerate 0 comments_df))"
    using loop_from_Inr [OF l] by simp
  have trace: "snd (handle_resolution env cfg (Some comments_df)) =
      Progress 0 (lit ''Starting Resolution'') #
      concat (map ?by_count (enumerate 0 comments_df)) @
      snd (identify_patterns (env_encode env) (env_fit_predict env)
             (table\<lparr>rows := filter (\<lambda>r. r (lit ''status'') = Some (Str (lit ''Resolved'')))
                                (rows table)\<rparr>)
             (num_clusters cfg)) @
      [Purge (local_temp_dir cfg), Log INFO (lit ''Resolution handling complete.''),
       Progress 1 (lit ''Finishing Resolution'')]"
    unfolding e loop same ..
  have "reports (snd (loop_from env cfg (length comments_df) 0 comments_df)) =
      map (\<lambda>(position, index, order_id, comment). of_int index / of_nat (length comments_df))
        (enumerate 0 comments_df)"
    unfolding loop by (rule reports_loop_effects)
  also have "\<dots> = map (\<lambda>(position, index, order_id, comment).
      of_nat position / of_nat (length comments_df)) (enumerate 0 comments_df)"
  proof (rule map_cong [OF refl])
    fix entry assume m: "entry \<in> set (enumerate 0 comments_df)"
    obtain position index order_id comment where
      entry: "entry = (position, index, order_id, comment)"
      by (cases entry)
    with m default_index [OF assms(2)] have "index = int position"
      by blast
    then show "(case entry of (position, index, order_id, comment) \<Rightarrow>
        of_int index / of_nat (length comments_df)) =
      (case entry of (position, index, order_id, comment) \<Rightarrow>
        (of_nat position :: rat) / of_nat (length comments_df))"
      by (simp add: entry)
  qed
  also have "\<dots> = map (\<lambda>entry. of_nat (fst entry) / of_nat (length comments_df))
      (enumerate 0 comments_df)"
    by (simp add: case_prod_unfold)
  also have "\<dots> = map (\<lambda>processed. of_nat processed / of_nat (length comments_df))
      (map fst (enumerate 0 comments_df))"
    by (simp only: map_map o_def)
  finally have r: "reports (snd (loop_from env cfg (length comments_df) 0 comments_df)) =
      map (\<lambda>processed. of_nat processed / of_nat (length comments_df)) [0..<length comments_df]"
    by simp
  have reported: "reports (snd (handle_resolution env cfg (Some comments_df))) =
      map (\<lambda>processed. of_nat processed / of_nat (length comments_df)) [0..<length comments_df]"
    unfolding e using r by simp
  show ?thesis
    using trace reported fractions_increasing [of "length comments_df"] by simp
qed

text \<open>A run over two records that are both classified \<open>Resolved\<close>, with two
  clusters asked for.\<close>

lemma two_resolved_run:
  "\<exists>table patterns message.
     fst (handle_resolution
            (quiet_environment (\<lambda>position k. Content (lit ''Resolved'')) (\<lambda>path content. None))
            (default_config 2)
            (Some [(0, lit ''order1'', lit ''Issue fixed.''),
                   (1, lit ''order2'', lit ''Refund issued.'')])) =
       (Some table, patterns, message)"
proof -
  let ?env = "quiet_environment (\<lambda>position k. Content (lit ''Resolved''))
      (\<lambda>path content. None) :: nat environment"
  let ?cfg = "default_config 2"
  let ?records = "[(0::int, lit ''order1'', lit ''Issue fixed.''),
      (1, lit ''order2'', lit ''Refund issued.'')]"
  let ?row1 = "[lit ''order_id'' \<mapsto> Str (lit ''order1''), lit ''comment'' \<mapsto> Str (lit ''Issue fixed.''),
      lit ''status'' \<mapsto> Str (lit ''Resolved'')]"
  let ?row2 = "[lit ''order_id'' \<mapsto> Str (lit ''order2''), lit ''comment'' \<mapsto> Str (lit ''Refund issued.''),
      lit ''status'' \<mapsto> Str (lit ''Resolved'')]"
  let ?frame = "\<lparr>columns = [lit ''order_id'', lit ''comment'', lit ''status''],
      rows = [?row1, ?row2]\<rparr>"
  have c: "env_completion ?env position = (\<lambda>k. Content (lit ''Resolved''))" for position
    by (simp add: quiet_environment_def)
  have d: "fst (actions_handle_resolution (env_write ?env) order_id classification comment
      resolved_dest unresolved_dest scratch_dir) = Inr ()" for order_id classification comment
      resolved_dest unresolved_dest scratch_dir
    by (simp add: actions_handle_resolution_def quiet_environment_def Let_def)
  have l: "fst (loop_from ?env ?cfg (length ?records) 0 ?records) = Inr [?row1, ?row2]"
    by (simp add: Let_def c classify_resolved d column_names_distinct result_row_def)
  have p: "present ?row1" "present ?row2"
    by (simp_all add: present_def column_names_distinct)
  have "\<exists>out. fst (identify_patterns position_encode single_cluster ?frame 2) = Inr out"
    using p by (simp add: identify_patterns_def is_empty_def dropna_comment_def Let_def
        position_encode_def single_cluster_def set_cluster_def column_names_distinct
        del: fun_upd_apply)
  then obtain out where a: "fst (identify_patterns position_encode single_cluster ?frame 2) = Inr out"
    by blast
  have f: "filter (\<lambda>r. r (lit ''status'') = Some (Str (lit ''Resolved''))) [?row1, ?row2] =
      [?row1, ?row2]"
    by simp
  have e: "env_setup ?env = None" "env_purge ?env (local_temp_dir ?cfg) = None"
    "env_encode ?env = position_encode" "env_fit_predict ?env = single_cluster"
    "num_clusters ?cfg = 2"
    by (simp_all add: quiet_environment_def default_config_def)
  have "fst (handle_resolution ?env ?cfg (Some ?records)) =
      (Some ?frame, Some out, lit ''Resolution handling complete.'')"
    by (rule handle_resolution_completes [OF _ e(1) l _ _ e(2)])
      (simp_all only: f e a list.distinct not_False_eq_True)
  then show ?thesis
    by blast
qed

theorem handle_resolution_reports_witness:
  "reports (snd (handle_resolution
       (quiet_environment (\<lambda>position k. Content (lit ''Resolved'')) (\<lambda>path content. None))
       (default_config 2)
       (Some [(0, lit ''order1'', lit ''Issue fixed.''),
              (1, lit ''order2'', lit ''Refund issued.'')]))) = [0, 1 / 2]"
proof -
  let ?records = "[(0::int, lit ''order1'', lit ''Issue fixed.''),
      (1, lit ''order2'', lit ''Refund issued.'')]"
  have i: "map fst ?records = map int [0..<length ?records]"
    by simp
  from two_resolved_run obtain table patterns message where
    h: "fst (handle_resolution
            (quiet_environment (\<lambda>position k. Content (lit ''Resolved'')) (\<lambda>path content. None))
            (default_config 2) (Some ?records)) = (Some table, patterns, message)"
    by blast
  from handle_resolution_reports [OF h i, THEN conjunct2, THEN conjunct1] show ?thesis
    by (simp add: upt_rec)
qed

text \<open>C9 as stated speaks of all the fractions the indicator receives. In this
  run over two records, both classified \<open>Resolved\<close>, the indicator is updated
  three times for each record and the fraction falls from \<open>1\<close> back to \<open>1/2\<close> when
  the second record starts.\<close>

theorem handle_resolution_fractions_fall:
  "fractions (snd (handle_resolution
       (quiet_environment (\<lambda>position k. Content (lit ''Resolved'')) (\<lambda>path content. None))
       (default_config 2)
       (Some [(0, lit ''order1'', lit ''Issue fixed.''),
              (1, lit ''order2'', lit ''Refund issued.'')]))) =
     [0, 0, 1 / 2, 1, 1 / 2, 1 / 2, 1, 1] \<and>
   \<not> sorted (fractions (snd (handle_resolution
       (quiet_environment (\<lambda>position k. Content (lit ''Resolved'')) (\<lambda>path content. None))
       (default_config 2)
       (Some [(0, lit ''order1'', lit ''Issue fixed.''),
              (1, lit ''order2'', lit ''Refund issued.'')]))))"
proof -
  let ?env = "quiet_environment (\<lambda>position k. Content (lit ''Resolved''))
      (\<lambda>path content. None) :: nat environment"
  let ?cfg = "default_config 2"
  let ?records = "[(0::int, lit ''order1'', lit ''Issue fixed.''),
      (1, lit ''order2'', lit ''Refund issued.'')]"
  have c: "env_completion ?env position = (\<lambda>k. Content (lit ''Resolved''))" for position
    by (simp add: quiet_environment_def)
  have d: "fst (actions_handle_resolution (env_write ?env) order_id classification comment
      resolved_dest unresolved_dest scratch_dir) = Inr ()" for order_id classification comment
      resolved_dest unresolved_dest scratch_dir
    by (simp add: actions_handle_resolution_def quiet_environment_def Let_def)
  from two_resolved_run obtain table patterns message where
    h: "fst (handle_resolution ?env ?cfg (Some ?records)) = (Some table, patterns, message)"
    by blast
  then obtain processed_data where
    l: "fst (loop_from ?env ?cfg (length ?records) 0 ?records) = Inr processed_data"
    and e: "snd (handle_resolution ?env ?cfg (Some ?records)) =
       Progress 0 (lit ''Starting Resolution'') #
       snd (loop_from ?env ?cfg (length ?records) 0 ?records) @
       snd (identify_patterns (env_encode ?env) (env_fit_predict ?env)
              (table\<lparr>rows := filter (\<lambda>r. r (lit ''status'') = Some (Str (lit ''Resolved'')))
                                 (rows table)\<rparr>)
              (num_clusters ?cfg)) @
       [Purge (local_temp_dir ?cfg), Log INFO (lit ''Resolution handling complete.''),
        Progress 1 (lit ''Finishing Resolution'')]"
    by (rule handle_resolution_Some)
  have "fractions (snd (loop_from ?env ?cfg (length ?records) 0 ?records)) =
      [0, 1 / 2, 1, 1 / 2, 1 / 2, 1]"
    using loop_from_Inr [OF l]
    by (simp add: c classify_resolved fractions_dispatch [OF d] del: loop_from.simps)
  then have f: "fractions (snd (handle_resolution ?env ?cfg (Some ?records))) =
      [0, 0, 1 / 2, 1, 1 / 2, 1 / 2, 1, 1]"
    unfolding e by simp
  show ?thesis
    unfolding f by simp
qed

subsection \<open>Claims about the pattern identifier\<close>

text \<open>
  C7. When the input table is empty, or when dropping the rows whose comment is
  missing leaves no row, \<open>identify_patterns\<close> returns the empty table and its only
  effect is a warning: neither the embedding model nor the clustering is called.
\<close>

theorem identify_patterns_nothing_to_cluster:
  assumes "is_empty df \<or> (lit ''comment'' \<in> set (columns df) \<and> filter present (rows df) = [])"
  shows "\<exists>message. identify_patterns encode fit_predict df n_clusters =
           (Inr empty_frame, [Log WARNING message])"
proof (cases "is_empty df")
  case True
  then show ?thesis by (simp add: identify_patterns_def)
next
  case False
  with assms have "lit ''comment'' \<in> set (columns df)" "filter present (rows df) = []"
    by auto
  with False show ?thesis
    by (simp add: identify_patterns_def dropna_comment_def is_empty_def)
qed

theorem identify_patterns_nothing_to_cluster_witness:
  "identify_patterns position_encode single_cluster empty_frame 3 =
     (Inr empty_frame, [Log WARNING (lit ''No resolved comments to analyze.'')]) \<and>
   identify_patterns position_encode single_cluster
     \<lparr>columns = [lit ''order_id'', lit ''comment''],
      rows = [[lit ''order_id'' \<mapsto> Str (lit ''order2''), lit ''comment'' \<mapsto> NA]]\<rparr> 3 =
     (Inr empty_frame,
      [Log WARNING (lit ''No resolved comments to analyze after dropping missing values'')])"
proof -
  let ?df = "\<lparr>columns = [lit ''order_id'', lit ''comment''],
      rows = [[lit ''order_id'' \<mapsto> Str (lit ''order2''), lit ''comment'' \<mapsto> NA]]\<rparr>"
  have a: "is_empty empty_frame \<or>
      (lit ''comment'' \<in> set (columns empty_frame) \<and> filter present (rows empty_frame) = [])"
    by (simp add: is_empty_def empty_frame_def)
  have b: "is_empty ?df \<or> (lit ''comment'' \<in> set (columns ?df) \<and> filter present (rows ?df) = [])"
    by (simp add: present_def)
  from identify_patterns_nothing_to_cluster [OF a, of position_encode single_cluster 3]
  obtain m where m: "identify_patterns position_encode single_cluster empty_frame 3 =
      (Inr empty_frame, [Log WARNING m])"
    by blast
  from identify_patterns_nothing_to_cluster [OF b, of position_encode single_cluster 3]
  obtain n where n: "identify_patterns position_encode single_cluster ?df 3 =
      (Inr empty_frame, [Log WARNING n])"
    by blast
  have "m = lit ''No resolved comments to analyze.''"
    using m by (simp add: identify_patterns_def is_empty_def empty_frame_def)
  moreover have "n = lit ''No resolved comments to analyze after dropping missing values''"
    using n by (simp add: identify_patterns_def is_empty_def dropna_comment_def present_def)
  ultimately show ?thesis
    using m n by simp
qed

lemma position_encode_contract: "encode_contract position_encode"
  by (simp add: encode_contract_def position_encode_def)

lemma single_cluster_contract: "kmeans_contract single_cluster"
  by (simp add: kmeans_contract_def single_cluster_def)

text \<open>
  C8 (as amended). Let the table have a \<open>comment\<close> column and let
  \<open>1 \<le> n_clusters \<le>\<close> the number of rows whose comment is present. Then the
  output consists of exactly these rows, in their order, each with its \<open>cluster\<close>
  entry set to an integer in \<open>[0, n_clusters)\<close> and every other entry as it was;
  the columns are those of the input and \<open>cluster\<close>.
\<close>

theorem identify_patterns_assigns_clusters:
  assumes "encode_contract encode" and "kmeans_contract fit_predict"
    and "lit ''comment'' \<in> set (columns df)"
    and "1 \<le> n_clusters" and "n_clusters \<le> int (length (filter present (rows df)))"
  shows "\<exists>out clusters.
           fst (identify_patterns encode fit_predict df n_clusters) = Inr out \<and>
           length clusters = length (filter present (rows df)) \<and>
           (\<forall>k \<in> set clusters. 0 \<le> k \<and> k < n_clusters) \<and>
           rows out = map (\<lambda>(r, k). r(lit ''cluster'' \<mapsto> Num k))
                        (zip (filter present (rows df)) clusters) \<and>
           set (columns out) = set (columns df) \<union> {lit ''cluster''}"
proof -
  let ?kept = "filter present (rows df)"
  let ?comments = "map comment_cell ?kept"
  from assms(4,5) have kept: "?kept \<noteq> []"
    by auto
  then have ne: "\<not> is_empty df" "\<not> is_empty (df\<lparr>rows := ?kept\<rparr>)"
    using assms(3) by (auto simp: is_empty_def)
  from assms(1) have len: "length (encode ?comments) = length ?kept"
    by (simp add: encode_contract_def)
  with assms(2,4,5) obtain clusters where c: "fit_predict n_clusters (encode ?comments) = Inr clusters"
      "length clusters = length ?kept" "\<forall>k \<in> set clusters. 0 \<le> k \<and> k < n_clusters"
    unfolding kmeans_contract_def by (metis len)
  have "fst (identify_patterns encode fit_predict df n_clusters) =
      set_cluster (df\<lparr>rows := ?kept\<rparr>) clusters"
    using ne assms(3) c(1) by (simp add: identify_patterns_def dropna_comment_def Let_def)
  also have "\<dots> = Inr \<lparr>columns = (if lit ''cluster'' \<in> set (columns df) then columns df
                           else columns df @ [lit ''cluster'']),
                rows = map (\<lambda>(r, k). r(lit ''cluster'' \<mapsto> Num k)) (zip ?kept clusters)\<rparr>"
    using c(2) by (simp add: set_cluster_def)
  finally show ?thesis
    using c(2,3) by (intro exI [of _ "\<lparr>columns = (if lit ''cluster'' \<in> set (columns df) then columns df
                           else columns df @ [lit ''cluster'']),
                rows = map (\<lambda>(r, k). r(lit ''cluster'' \<mapsto> Num k)) (zip ?kept clusters)\<rparr>"]
        exI [of _ clusters]) auto
qed

theorem identify_patterns_assigns_clusters_witness:
  "map_sum id (column_values (lit ''order_id''))
     (fst (identify_patterns position_encode single_cluster
        \<lparr>columns = [lit ''order_id'', lit ''comment''],
         rows = [[lit ''order_id'' \<mapsto> Str (lit ''order1''), lit ''comment'' \<mapsto> Str (lit ''short comment'')],
                 [lit ''order_id'' \<mapsto> Str (lit ''order2''), lit ''comment'' \<mapsto> NA],
                 [lit ''order_id'' \<mapsto> Str (lit ''order3''), lit ''comment'' \<mapsto> Str (lit ''long comment'')]]\<rparr>
        2)) =
   Inr [Some (Str (lit ''order1'')), Some (Str (lit ''order3''))]"
proof -
  let ?r1 = "[lit ''order_id'' \<mapsto> Str (lit ''order1''), lit ''comment'' \<mapsto> Str (lit ''short comment'')]"
  let ?r2 = "[lit ''order_id'' \<mapsto> Str (lit ''order2''), lit ''comment'' \<mapsto> NA]"
  let ?r3 = "[lit ''order_id'' \<mapsto> Str (lit ''order3''), lit ''comment'' \<mapsto> Str (lit ''long comment'')]"
  let ?df = "\<lparr>columns = [lit ''order_id'', lit ''comment''], rows = [?r1, ?r2, ?r3]\<rparr>"
  have kept': "filter present [?r1, ?r2, ?r3] = [?r1, ?r3]"
    by (simp add: present_def)
  then have kept: "filter present (rows ?df) = [?r1, ?r3]"
    by (simp del: filter.simps)
  have h: "lit ''comment'' \<in> set (columns ?df)" "(1::int) \<le> 2"
    "2 \<le> int (length (filter present (rows ?df)))"
    by (simp_all add: kept' del: filter.simps)
  have ne: "lit ''order_id'' \<noteq> lit ''cluster''" "lit ''order_id'' \<noteq> lit ''comment''"
    by (simp_all add: lit_def)
  from identify_patterns_assigns_clusters
    [OF position_encode_contract single_cluster_contract h]
  obtain out clusters where o:
    "fst (identify_patterns position_encode single_cluster ?df 2) = Inr out"
    "length clusters = length (filter present (rows ?df))"
    "rows out = map (\<lambda>(r, k). r(lit ''cluster'' \<mapsto> Num k))
                        (zip (filter present (rows ?df)) clusters)"
    by blast
  from o(2) obtain a b where "clusters = [a, b]"
    unfolding kept by (cases clusters; cases "tl clusters") auto
  with o(3) have "rows out = [?r1(lit ''cluster'' \<mapsto> Num a), ?r3(lit ''cluster'' \<mapsto> Num b)]"
    unfolding kept by simp
  then have "column_values (lit ''order_id'') out =
      [Some (Str (lit ''order1'')), Some (Str (lit ''order3''))]"
    using ne by (simp add: column_values_def)
  with o(1) show ?thesis
    by simp
qed

text \<open>C8 as stated keeps all the columns the table had. A table that already has a
  \<open>cluster\<close> column (the output of an earlier run, say) loses its values: here the
  stored \<open>7\<close> is replaced by the new assignment \<open>0\<close>.\<close>

theorem identify_patterns_overwrites_cluster:
  "column_values (lit ''cluster'')
     \<lparr>columns = [lit ''order_id'', lit ''comment'', lit ''cluster''],
      rows = [[lit ''order_id'' \<mapsto> Str (lit ''order1''),
               lit ''comment'' \<mapsto> Str (lit ''Issue fixed.''),
               lit ''cluster'' \<mapsto> Num 7]]\<rparr> = [Some (Num 7)] \<and>
   map_sum id (column_values (lit ''cluster''))
     (fst (identify_patterns position_encode single_cluster
        \<lparr>columns = [lit ''order_id'', lit ''comment'', lit ''cluster''],
         rows = [[lit ''order_id'' \<mapsto> Str (lit ''order1''),
                  lit ''comment'' \<mapsto> Str (lit ''Issue fixed.''),
                  lit ''cluster'' \<mapsto> Num 7]]\<rparr>
        1)) = Inr [Some (Num 0)]"
proof -
  let ?r = "[lit ''order_id'' \<mapsto> Str (lit ''order1''),
             lit ''comment'' \<mapsto> Str (lit ''Issue fixed.''), lit ''cluster'' \<mapsto> Num 7]"
  have ne: "lit ''cluster'' \<noteq> lit ''comment''" "lit ''cluster'' \<noteq> lit ''order_id''"
    by (simp_all add: lit_def)
  have p: "present ?r"
    using ne by (simp add: present_def)
  have "fst (identify_patterns position_encode single_cluster
        \<lparr>columns = [lit ''order_id'', lit ''comment'', lit ''cluster''], rows = [?r]\<rparr> 1) =
      Inr \<lparr>columns = [lit ''order_id'', lit ''comment'', lit ''cluster''],
           rows = [?r(lit ''cluster'' \<mapsto> Num 0)]\<rparr>"
    using p by (simp add: identify_patterns_def is_empty_def dropna_comment_def Let_def
        position_encode_def single_cluster_def set_cluster_def del: fun_upd_apply)
  then show ?thesis
    by (simp add: column_values_def)
qed

end
